theory Spec2Isabelle
  imports Main
begin

section \<open>The chat manager of vscode-chat (src/manager/index.ts)\<close>

text \<open>
  The class \<open>Manager\<close> owns a JavaScript \<open>Map\<close> from provider names to sessions
  (\<open>ChatProviderManager\<close> objects), a flag \<open>isTokenInitialized\<close>, an optional
  \<open>VslsContactProvider\<close> and a reference to the store. Its methods are embedded as
  functions that take the manager (and the part of the environment they read) and return
  the manager after the call together with the list of calls made to collaborators
  outside the class, in the order the code makes them.

  A promise is identified with its outcome: an \<open>async\<close> method that rejects is a method
  that throws, one that resolves to \<open>v\<close> is one that returns \<open>v\<close>. The methods run to
  completion one after the other.
\<close>

subsection \<open>JavaScript values the code relies on\<close>

text \<open>
  \<open>Array.prototype.indexOf\<close>: the first position holding the item (compared with
  \<open>===\<close>), or \<open>-1\<close>.
\<close>

fun indexOf_from :: "'a list \<Rightarrow> 'a \<Rightarrow> nat \<Rightarrow> int" where
  "indexOf_from [] item pos = - 1"
| "indexOf_from (x # xs) item pos =
     (if x = item then int pos else indexOf_from xs item (Suc pos))"

definition indexOf :: "'a list \<Rightarrow> 'a \<Rightarrow> int" where
  "indexOf xs item = indexOf_from xs item 0"

text \<open>
  \<open>Array.prototype.filter\<close> with a callback that receives the item and its position.
\<close>

fun filter_from :: "('a \<Rightarrow> nat \<Rightarrow> bool) \<Rightarrow> 'a list \<Rightarrow> nat \<Rightarrow> 'a list" where
  "filter_from f [] pos = []"
| "filter_from f (item # rest) pos =
     (if f item pos then item # filter_from f rest (Suc pos)
      else filter_from f rest (Suc pos))"

definition filter_array :: "('a \<Rightarrow> nat \<Rightarrow> bool) \<Rightarrow> 'a list \<Rightarrow> 'a list" where
  "filter_array f xs = filter_from f xs 0"

text \<open>
  A \<open>Map\<close> keeps its entries in insertion order, one entry per key: an association list
  whose keys are distinct. \<open>set\<close> on a key that is present replaces the value in place,
  on a new key it appends the entry; \<open>delete\<close> removes the entry; \<open>keys()\<close> and
  \<open>entries()\<close> list in insertion order.
\<close>

type_synonym ('k, 'v) js_map = "('k \<times> 'v) list"

definition map_get :: "('k, 'v) js_map \<Rightarrow> 'k \<Rightarrow> 'v option" where
  "map_get m k = map_of m k"

fun map_set :: "'k \<Rightarrow> 'v \<Rightarrow> ('k, 'v) js_map \<Rightarrow> ('k, 'v) js_map" where
  "map_set k v [] = [(k, v)]"
| "map_set k v (e # es) = (if fst e = k then (k, v) # es else e # map_set k v es)"

definition map_delete :: "'k \<Rightarrow> ('k, 'v) js_map \<Rightarrow> ('k, 'v) js_map" where
  "map_delete k m = filter (\<lambda>e. fst e \<noteq> k) m"

definition map_keys :: "('k, 'v) js_map \<Rightarrow> 'k list" where
  "map_keys m = map fst m"

definition map_entries :: "('k, 'v) js_map \<Rightarrow> ('k \<times> 'v) list" where
  "map_entries m = m"

definition wf_map :: "('k, 'v) js_map \<Rightarrow> bool" where
  "wf_map m = distinct (map fst m)"

subsection \<open>Providers and sessions\<close>

datatype error = Error string

text \<open>
  The three backends the factory can build. The constructors of the Discord and Slack
  backends take the token (and the manager, which is not data).
\<close>

datatype IChatProvider =
    DiscordChatProvider string
  | SlackChatProvider string
  | VslsChatProvider

definition instantiateChatProvider :: "string \<Rightarrow> string \<Rightarrow> error + IChatProvider" where
  "instantiateChatProvider token provider =
     (if provider = ''discord'' then Inr (DiscordChatProvider token)
      else if provider = ''slack'' then Inr (SlackChatProvider token)
      else if provider = ''vsls'' then Inr VslsChatProvider
      else Inl (Error (''unsupport chat provider: '' @ provider)))"

text \<open>
  A session, as \<open>new ChatProviderManager(store, provider, chatProvider, manager)\<close>
  builds it: the provider name and the backend (the store and the manager are
  references back to the owner).
\<close>

record ChatProviderManager =
  cpm_providerName :: string
  cpm_chatProvider :: IChatProvider

subsection \<open>The store\<close>

record CurrentUser =
  cu_id :: string
  cu_provider :: string
  cu_currentTeamId :: "string option"

text \<open>
  Modelled from the spec: the type \<open>Team\<close> is declared outside the file; the spec
  gives a team an id and a name.
\<close>

record Team =
  team_id :: string
  team_name :: string

text \<open>
  Modelled from the spec: the class behind \<open>IStore\<close> is not part of the file. The
  spec's persistent store holds a current-user record per provider, and per provider a
  cache of users (an object keyed by user id), a list of channels and the last selected
  channel. The getters read these, each setter replaces the entry of the one provider it
  is given, and \<open>clearProviderState\<close> clears everything kept for one provider.
\<close>

record ('u, 'c) IStore =
  s_currentUserInfo :: "CurrentUser list"
  s_users :: "string \<Rightarrow> (string \<times> 'u) list"
  s_channels :: "string \<Rightarrow> 'c list"
  s_lastChannelId :: "string \<Rightarrow> string option"

definition getCurrentUserForAll :: "('u, 'c) IStore \<Rightarrow> CurrentUser list" where
  "getCurrentUserForAll s = s_currentUserInfo s"

definition getCurrentUser :: "('u, 'c) IStore \<Rightarrow> string \<Rightarrow> CurrentUser option" where
  "getCurrentUser s p = find (\<lambda>u. cu_provider u = p) (s_currentUserInfo s)"

definition getUsers :: "('u, 'c) IStore \<Rightarrow> string \<Rightarrow> (string \<times> 'u) list" where
  "getUsers s p = s_users s p"

definition updateUsers ::
  "string \<Rightarrow> (string \<times> 'u) list \<Rightarrow> ('u, 'c) IStore \<Rightarrow> ('u, 'c) IStore" where
  "updateUsers p us s = s\<lparr>s_users := (s_users s)(p := us)\<rparr>"

definition updateChannels :: "string \<Rightarrow> 'c list \<Rightarrow> ('u, 'c) IStore \<Rightarrow> ('u, 'c) IStore" where
  "updateChannels p cs s = s\<lparr>s_channels := (s_channels s)(p := cs)\<rparr>"

definition updateLastChannelId ::
  "string \<Rightarrow> string option \<Rightarrow> ('u, 'c) IStore \<Rightarrow> ('u, 'c) IStore" where
  "updateLastChannelId p c s = s\<lparr>s_lastChannelId := (s_lastChannelId s)(p := c)\<rparr>"

definition clearProviderState :: "string \<Rightarrow> ('u, 'c) IStore \<Rightarrow> ('u, 'c) IStore" where
  "clearProviderState p s =
     s\<lparr>s_currentUserInfo := filter (\<lambda>u. cu_provider u \<noteq> p) (s_currentUserInfo s),
       s_users := (s_users s)(p := []),
       s_channels := (s_channels s)(p := []),
       s_lastChannelId := (s_lastChannelId s)(p := None)\<rparr>"

subsection \<open>The manager\<close>

text \<open>
  Modelled from the spec: the class \<open>VslsContactProvider\<close> (the presence bridge) is not
  part of the file. A bridge is bound to the one provider it is constructed with and
  carries the flag \<open>isInitialized\<close> that the manager reads.
\<close>

record VslsContactProvider =
  vcp_presenceProvider :: string
  vcp_isInitialized :: bool

record ('u, 'c) Manager =
  isTokenInitialized :: bool
  vslsContactProvider :: "VslsContactProvider option"
  chatProviders :: "(string, ChatProviderManager) js_map"
  store :: "('u, 'c) IStore"

text \<open>
  \<open>getEnabledProviders\<close>: the providers of the stored current users, then \<open>vsls\<close> when
  the Live Share extension is installed (\<open>hasVsls\<close> is what \<open>hasVslsExtension()\<close>
  returns), keeping the first occurrence of each.
\<close>

definition getEnabledProviders :: "bool \<Rightarrow> ('u, 'c) Manager \<Rightarrow> string list" where
  "getEnabledProviders hasVsls m =
     (let currentUserInfos = getCurrentUserForAll (store m);
          providers0 = map cu_provider currentUserInfos;
          providers = (if hasVsls then providers0 @ [''vsls''] else providers0);
          uniqueProviders =
            filter_array (\<lambda>item pos. indexOf providers item = int pos) providers
      in uniqueProviders)"

definition getChatProvider ::
  "('u, 'c) Manager \<Rightarrow> string \<Rightarrow> ChatProviderManager option" where
  "getChatProvider m providerName = map_get (chatProviders m) providerName"

subsection \<open>Collaborators\<close>

text \<open>
  Modelled from the spec: \<open>ConfigHelper\<close> is not part of the file. The spec's secret
  store keeps at most one token per provider; \<open>getToken\<close> reads it and \<open>clearToken\<close>
  removes it.
\<close>

type_synonym tokens = "string \<Rightarrow> string option"

definition getToken :: "tokens \<Rightarrow> string \<Rightarrow> string option" where
  "getToken tok provider = tok provider"

definition clearToken :: "string \<Rightarrow> tokens \<Rightarrow> tokens" where
  "clearToken provider tok = tok(provider := None)"

text \<open>
  The calls the manager makes on objects it does not implement, recorded in the order
  they are made: the construction of a session, \<open>viewsManager.initialize\<close>,
  \<open>ConfigHelper.clearToken\<close>, the command \<open>SelfCommands.RESET_STORE\<close> (sent with
  \<open>newProvider: undefined\<close>), \<open>destroy\<close> on a session, and the construction,
  registration and two announcements of the presence bridge.
\<close>

datatype 'u effect =
    New_ChatProviderManager string IChatProvider
  | ViewsManager_initialize "string list" "(string \<times> Team list) list"
  | ConfigHelper_clearToken string
  | ExecuteCommand_RESET_STORE
  | ChatProviderManager_destroy ChatProviderManager
  | New_VslsContactProvider string
  | VslsContactProvider_register
  | NotifySelfContact "'u option"
  | NotifyAvailableUsers string "(string \<times> 'u) list"

text \<open>
  The truth value JavaScript gives a \<open>string | undefined\<close>: \<open>undefined\<close> (\<open>None\<close>) and
  the empty string are falsy.
\<close>

definition truthy :: "string option \<Rightarrow> bool" where
  "truthy v = (case v of None \<Rightarrow> False | Some s \<Rightarrow> s \<noteq> [])"

subsection \<open>initializeToken\<close>

text \<open>
  One round of the loop of \<open>initializeToken\<close>. The result is the error thrown, if any,
  the manager after the round and the calls made.
\<close>

definition initializeToken_body ::
  "tokens \<Rightarrow> string \<Rightarrow> ('u, 'c) Manager \<Rightarrow>
     error option \<times> ('u, 'c) Manager \<times> 'u effect list" where
  "initializeToken_body tok provider m =
     (if provider \<noteq> [] then
        (case getToken tok provider of
           None \<Rightarrow> (None, m, [])
         | Some token \<Rightarrow>
             if token \<noteq> [] then
               (case getChatProvider m provider of
                  None \<Rightarrow>
                    (case instantiateChatProvider token provider of
                       Inl e \<Rightarrow> (Some e, m, [])
                     | Inr chatProvider \<Rightarrow>
                         (None,
                          m\<lparr>chatProviders :=
                              map_set provider
                                \<lparr>cpm_providerName = provider, cpm_chatProvider = chatProvider\<rparr>
                                (chatProviders m),
                            isTokenInitialized := True\<rparr>,
                          [New_ChatProviderManager provider chatProvider]))
                | Some existingProvider \<Rightarrow> (None, m\<lparr>isTokenInitialized := True\<rparr>, []))
             else (None, m, []))
      else (None, m, []))"

fun initializeToken_loop ::
  "tokens \<Rightarrow> string list \<Rightarrow> ('u, 'c) Manager \<Rightarrow>
     error option \<times> ('u, 'c) Manager \<times> 'u effect list" where
  "initializeToken_loop tok [] m = (None, m, [])"
| "initializeToken_loop tok (provider # rest) m =
     (case initializeToken_body tok provider m of
        (Some e, m1, effs1) \<Rightarrow> (Some e, m1, effs1)
      | (None, m1, effs1) \<Rightarrow>
          (case initializeToken_loop tok rest m1 of
             (r, m2, effs2) \<Rightarrow> (r, m2, effs1 @ effs2)))"

text \<open>
  \<open>initializeViewsManager\<close>: the teams of every session, keyed by provider, are handed
  to the views manager. \<open>getTeams\<close> is the method of that name of the session class.
\<close>

fun providerTeams_loop ::
  "(ChatProviderManager \<Rightarrow> Team list) \<Rightarrow> (string, ChatProviderManager) js_map \<Rightarrow>
     string list \<Rightarrow> (string, Team list) js_map \<Rightarrow> (string, Team list) js_map" where
  "providerTeams_loop getTeams cps [] providerTeams = providerTeams"
| "providerTeams_loop getTeams cps (provider # rest) providerTeams =
     (case map_get cps provider of
        Some chatProvider \<Rightarrow>
          providerTeams_loop getTeams cps rest
            (map_set provider (getTeams chatProvider) providerTeams)
      | None \<Rightarrow> providerTeams_loop getTeams cps rest providerTeams)"

definition initializeViewsManager ::
  "(ChatProviderManager \<Rightarrow> Team list) \<Rightarrow> ('u, 'c) Manager \<Rightarrow> 'u effect list" where
  "initializeViewsManager getTeams m =
     (let enabledProviders = map_keys (chatProviders m);
          providerTeams = providerTeams_loop getTeams (chatProviders m) enabledProviders []
      in [ViewsManager_initialize enabledProviders providerTeams])"

definition initializeToken ::
  "(ChatProviderManager \<Rightarrow> Team list) \<Rightarrow> bool \<Rightarrow> tokens \<Rightarrow> string option \<Rightarrow>
     ('u, 'c) Manager \<Rightarrow> error option \<times> ('u, 'c) Manager \<times> 'u effect list" where
  "initializeToken getTeams hasVsls tok newProvider m =
     (let enabledProviders0 = getEnabledProviders hasVsls m;
          enabledProviders =
            (case newProvider of
               None \<Rightarrow> enabledProviders0
             | Some p \<Rightarrow> if p \<noteq> [] then enabledProviders0 @ [p] else enabledProviders0)
      in case initializeToken_loop tok enabledProviders m of
           (Some e, m1, effs) \<Rightarrow> (Some e, m1, effs)
         | (None, m1, effs) \<Rightarrow> (None, m1, effs @ initializeViewsManager getTeams m1))"

subsection \<open>The presence bridge\<close>

text \<open>
  \<open>initializeVslsContactProvider\<close>. \<open>registered\<close> is the value of \<open>isInitialized\<close> of
  the new bridge once \<open>register()\<close> has completed.
\<close>

definition initializeVslsContactProvider ::
  "bool \<Rightarrow> bool \<Rightarrow> ('u, 'c) Manager \<Rightarrow> ('u, 'c) Manager \<times> 'u effect list" where
  "initializeVslsContactProvider hasVsls registered m =
     (let enabledProviders = getEnabledProviders hasVsls m;
          nonVslsProviders = filter (\<lambda>provider. provider \<noteq> ''vsls'') enabledProviders
      in if hasVsls \<and> length nonVslsProviders > 0 then
           (case nonVslsProviders of
              [] \<Rightarrow> (m, [])
            | presenceProvider # others \<Rightarrow>
                (let isNotAlreadyInit =
                       (case vslsContactProvider m of
                          None \<Rightarrow> True
                        | Some v \<Rightarrow> \<not> vcp_isInitialized v);
                     currentUserInfo = getCurrentUser (store m) presenceProvider;
                     users = getUsers (store m) presenceProvider
                 in case currentUserInfo of
                      Some cu \<Rightarrow>
                        if isNotAlreadyInit then
                          (let userId = cu_id cu;
                               currentUser = map_of users userId
                           in (m\<lparr>vslsContactProvider :=
                                   Some \<lparr>vcp_presenceProvider = presenceProvider,
                                         vcp_isInitialized = registered\<rparr>\<rparr>,
                               [New_VslsContactProvider presenceProvider,
                                VslsContactProvider_register,
                                NotifySelfContact currentUser,
                                NotifyAvailableUsers userId users]))
                        else (m, [])
                    | None \<Rightarrow> (m, [])))
         else (m, []))"

subsection \<open>signout, clearAll, clearOldWorkspace\<close>

fun signout_loop ::
  "(string \<times> ChatProviderManager) list \<Rightarrow> tokens \<Rightarrow> bool \<Rightarrow>
     tokens \<times> bool \<times> 'u effect list" where
  "signout_loop [] tok hasSignedOut = (tok, hasSignedOut, [])"
| "signout_loop (entry # rest) tok hasSignedOut =
     (let providerName = fst entry in
      if providerName \<noteq> ''vsls'' then
        (case signout_loop rest (clearToken providerName tok) True of
           (tok', h, effs) \<Rightarrow> (tok', h, ConfigHelper_clearToken providerName # effs))
      else signout_loop rest tok hasSignedOut)"

definition signout ::
  "tokens \<Rightarrow> ('u, 'c) Manager \<Rightarrow> ('u, 'c) Manager \<times> tokens \<times> 'u effect list" where
  "signout tok m =
     (case signout_loop (map_entries (chatProviders m)) tok False of
        (tok', hasSignedOut, effs) \<Rightarrow>
          (m, tok', effs @ (if hasSignedOut then [ExecuteCommand_RESET_STORE] else [])))"

fun clearAll_loop ::
  "string list \<Rightarrow> ('u, 'c) Manager \<Rightarrow> ('u, 'c) Manager \<times> 'u effect list" where
  "clearAll_loop [] m = (m, [])"
| "clearAll_loop (provider # rest) m =
     (let isNotVsls = (provider \<noteq> ''vsls'') in
      if isNotVsls then
        (let m1 = m\<lparr>store := clearProviderState provider (store m)\<rparr> in
         case getChatProvider m1 provider of
           Some chatProvider \<Rightarrow>
             (case clearAll_loop rest
                     (m1\<lparr>chatProviders := map_delete provider (chatProviders m1)\<rparr>) of
                (m2, effs) \<Rightarrow> (m2, ChatProviderManager_destroy chatProvider # effs))
         | None \<Rightarrow> clearAll_loop rest m1)
      else clearAll_loop rest m)"

definition clearAll ::
  "('u, 'c) Manager \<Rightarrow> ('u, 'c) Manager \<times> 'u effect list" where
  "clearAll m =
     (let enabledProviders = map_keys (chatProviders m) in
      case clearAll_loop enabledProviders m of
        (m1, effs) \<Rightarrow> (m1\<lparr>isTokenInitialized := False\<rparr>, effs))"

definition clearOldWorkspace :: "string \<Rightarrow> ('u, 'c) Manager \<Rightarrow> ('u, 'c) Manager" where
  "clearOldWorkspace provider m =
     m\<lparr>store :=
         updateLastChannelId provider None
           (updateChannels provider [] (updateUsers provider [] (store m)))\<rparr>"

subsection \<open>Channel labels\<close>

text \<open>
  \<open>getChannelLabels\<close>; \<open>cp_getChannelLabels\<close> is the method of that name of the session
  class.
\<close>

fun getChannelLabels_loop ::
  "(ChatProviderManager \<Rightarrow> 'l list) \<Rightarrow> string option \<Rightarrow>
     (string \<times> ChatProviderManager) list \<Rightarrow> 'l list \<Rightarrow> 'l list" where
  "getChannelLabels_loop cp_getChannelLabels provider [] channelLabels = channelLabels"
| "getChannelLabels_loop cp_getChannelLabels provider (entry # rest) channelLabels =
     (let cp = snd entry; providerName = fst entry in
      if \<not> truthy provider \<or> provider = Some providerName then
        getChannelLabels_loop cp_getChannelLabels provider rest
          (channelLabels @ cp_getChannelLabels cp)
      else getChannelLabels_loop cp_getChannelLabels provider rest channelLabels)"

definition getChannelLabels ::
  "(ChatProviderManager \<Rightarrow> 'l list) \<Rightarrow> ('u, 'c) Manager \<Rightarrow> string option \<Rightarrow> 'l list" where
  "getChannelLabels cp_getChannelLabels m provider =
     getChannelLabels_loop cp_getChannelLabels provider (map_entries (chatProviders m)) []"

subsection \<open>Dispatch to one session\<close>

text \<open>
  The methods that look the session of a provider up and hand the call to it. The first
  argument of each is the method of the same name of the session class, which may throw
  (\<open>Inl\<close>) or return a value; \<open>None\<close> is the value \<open>undefined\<close>.
\<close>

definition createIMChannel ::
  "(ChatProviderManager \<Rightarrow> 'user \<Rightarrow> error + 'r option) \<Rightarrow> ('u, 'c) Manager \<Rightarrow>
     string \<Rightarrow> 'user \<Rightarrow> error + 'r option" where
  "createIMChannel cp_createIMChannel m providerName user =
     (case getChatProvider m providerName of
        Some cp \<Rightarrow> cp_createIMChannel cp user
      | None \<Rightarrow> Inr None)"

definition getUserPresence ::
  "(ChatProviderManager \<Rightarrow> string \<Rightarrow> error + 'r option) \<Rightarrow> ('u, 'c) Manager \<Rightarrow>
     string \<Rightarrow> string \<Rightarrow> error + 'r option" where
  "getUserPresence cp_getUserPresence m provider userId =
     (case getChatProvider m provider of
        Some cp \<Rightarrow> cp_getUserPresence cp userId
      | None \<Rightarrow> Inr None)"

definition getCurrentUserPresence ::
  "(ChatProviderManager \<Rightarrow> error + 'r option) \<Rightarrow> ('u, 'c) Manager \<Rightarrow>
     string \<Rightarrow> error + 'r option" where
  "getCurrentUserPresence cp_getCurrentUserPresence m provider =
     (case getChatProvider m provider of
        Some cp \<Rightarrow> cp_getCurrentUserPresence cp
      | None \<Rightarrow> Inr None)"

definition loadChannelHistory ::
  "(ChatProviderManager \<Rightarrow> string \<Rightarrow> error + 'r option) \<Rightarrow> ('u, 'c) Manager \<Rightarrow>
     string \<Rightarrow> string \<Rightarrow> error + 'r option" where
  "loadChannelHistory cp_loadChannelHistory m providerName channelId =
     (case getChatProvider m providerName of
        Some cp \<Rightarrow> cp_loadChannelHistory cp channelId
      | None \<Rightarrow> Inr None)"

definition updateReadMarker ::
  "(ChatProviderManager \<Rightarrow> error + 'r option) \<Rightarrow> ('u, 'c) Manager \<Rightarrow>
     string \<Rightarrow> error + 'r option" where
  "updateReadMarker cp_updateReadMarker m providerName =
     (case getChatProvider m providerName of
        Some cp \<Rightarrow> cp_updateReadMarker cp
      | None \<Rightarrow> Inr None)"

definition sendMessage ::
  "(ChatProviderManager \<Rightarrow> string \<Rightarrow> string \<Rightarrow> string option \<Rightarrow> error + 'r option) \<Rightarrow>
     ('u, 'c) Manager \<Rightarrow> string \<Rightarrow> string \<Rightarrow> string \<Rightarrow> string option \<Rightarrow>
     error + 'r option" where
  "sendMessage cp_sendMessage m providerName text channelId parentTimestamp =
     (case getChatProvider m providerName of
        Some cp \<Rightarrow> cp_sendMessage cp text channelId parentTimestamp
      | None \<Rightarrow> Inr None)"

definition updateSelfPresence ::
  "(ChatProviderManager \<Rightarrow> 'presence \<Rightarrow> int \<Rightarrow> error + 'r option) \<Rightarrow>
     ('u, 'c) Manager \<Rightarrow> string \<Rightarrow> 'presence \<Rightarrow> int \<Rightarrow> error + 'r option" where
  "updateSelfPresence cp_updateSelfPresence m providerName presence durationInMinutes =
     (case getChatProvider m providerName of
        Some cp \<Rightarrow> cp_updateSelfPresence cp presence durationInMinutes
      | None \<Rightarrow> Inr None)"

definition addReaction ::
  "(ChatProviderManager \<Rightarrow> string \<Rightarrow> string \<Rightarrow> string \<Rightarrow> string \<Rightarrow> error + 'r option) \<Rightarrow>
     ('u, 'c) Manager \<Rightarrow> string \<Rightarrow> string \<Rightarrow> string \<Rightarrow> string \<Rightarrow> string \<Rightarrow>
     error + 'r option" where
  "addReaction cp_addReaction m providerName channelId msgTimestamp userId reactionName =
     (case getChatProvider m providerName of
        Some cp \<Rightarrow> cp_addReaction cp channelId msgTimestamp userId reactionName
      | None \<Rightarrow> Inr None)"

definition removeReaction ::
  "(ChatProviderManager \<Rightarrow> string \<Rightarrow> string \<Rightarrow> string \<Rightarrow> string \<Rightarrow> error + 'r option) \<Rightarrow>
     ('u, 'c) Manager \<Rightarrow> string \<Rightarrow> string \<Rightarrow> string \<Rightarrow> string \<Rightarrow> string \<Rightarrow>
     error + 'r option" where
  "removeReaction cp_removeReaction m providerName channelId msgTimestamp userId reactionName =
     (case getChatProvider m providerName of
        Some cp \<Rightarrow> cp_removeReaction cp channelId msgTimestamp userId reactionName
      | None \<Rightarrow> Inr None)"

definition fetchThreadReplies ::
  "(ChatProviderManager \<Rightarrow> string \<Rightarrow> error + 'r option) \<Rightarrow> ('u, 'c) Manager \<Rightarrow>
     string \<Rightarrow> string \<Rightarrow> error + 'r option" where
  "fetchThreadReplies cp_fetchThreadReplies m providerName parentTimestamp =
     (case getChatProvider m providerName of
        Some cp \<Rightarrow> cp_fetchThreadReplies cp parentTimestamp
      | None \<Rightarrow> Inr None)"

definition updateMessageReply ::
  "(ChatProviderManager \<Rightarrow> string \<Rightarrow> string \<Rightarrow> 'reply \<Rightarrow> error + 'r option) \<Rightarrow>
     ('u, 'c) Manager \<Rightarrow> string \<Rightarrow> string \<Rightarrow> string \<Rightarrow> 'reply \<Rightarrow> error + 'r option" where
  "updateMessageReply cp_updateMessageReply m providerName parentTimestamp channelId reply =
     (case getChatProvider m providerName of
        Some cp \<Rightarrow> cp_updateMessageReply cp parentTimestamp channelId reply
      | None \<Rightarrow> Inr None)"

definition updateMessages ::
  "(ChatProviderManager \<Rightarrow> string \<Rightarrow> 'msgs \<Rightarrow> error + 'r option) \<Rightarrow>
     ('u, 'c) Manager \<Rightarrow> string \<Rightarrow> string \<Rightarrow> 'msgs \<Rightarrow> error + 'r option" where
  "updateMessages cp_updateMessages m providerName channelId messages =
     (case getChatProvider m providerName of
        Some cp \<Rightarrow> cp_updateMessages cp channelId messages
      | None \<Rightarrow> Inr None)"

definition updateChannelMarked ::
  "(ChatProviderManager \<Rightarrow> string \<Rightarrow> string \<Rightarrow> int \<Rightarrow> error + 'r option) \<Rightarrow>
     ('u, 'c) Manager \<Rightarrow> string \<Rightarrow> string \<Rightarrow> string \<Rightarrow> int \<Rightarrow> error + 'r option" where
  "updateChannelMarked cp_updateChannelMarked m provider channelId readTimestamp unreadCount =
     (case getChatProvider m provider of
        Some cp \<Rightarrow> cp_updateChannelMarked cp channelId readTimestamp unreadCount
      | None \<Rightarrow> Inr None)"

definition updatePresenceForUser ::
  "(ChatProviderManager \<Rightarrow> string \<Rightarrow> 'presence \<Rightarrow> error + 'r option) \<Rightarrow>
     ('u, 'c) Manager \<Rightarrow> string \<Rightarrow> string \<Rightarrow> 'presence \<Rightarrow> error + 'r option" where
  "updatePresenceForUser cp_updatePresenceForUser m providerName userId presence =
     (case getChatProvider m providerName of
        Some cp \<Rightarrow> cp_updatePresenceForUser cp userId presence
      | None \<Rightarrow> Inr None)"

definition getChannel ::
  "(ChatProviderManager \<Rightarrow> string option \<Rightarrow> error + 'r option) \<Rightarrow> ('u, 'c) Manager \<Rightarrow>
     string \<Rightarrow> string option \<Rightarrow> error + 'r option" where
  "getChannel cp_getChannel m provider channelId =
     (case getChatProvider m provider of
        Some cp \<Rightarrow> cp_getChannel cp channelId
      | None \<Rightarrow> Inr None)"

definition fetchUsers ::
  "(ChatProviderManager \<Rightarrow> error + 'r option) \<Rightarrow> ('u, 'c) Manager \<Rightarrow>
     string \<Rightarrow> error + 'r option" where
  "fetchUsers cp_fetchUsers m providerName =
     (case getChatProvider m providerName of
        Some cp \<Rightarrow> cp_fetchUsers cp
      | None \<Rightarrow> Inr None)"

definition fetchChannels ::
  "(ChatProviderManager \<Rightarrow> error + 'r option) \<Rightarrow> ('u, 'c) Manager \<Rightarrow>
     string \<Rightarrow> error + 'r option" where
  "fetchChannels cp_fetchChannels m providerName =
     (case getChatProvider m providerName of
        Some cp \<Rightarrow> cp_fetchChannels cp
      | None \<Rightarrow> Inr None)"

text \<open>
  Three lookups have a default of their own type instead of \<open>undefined\<close>:
  \<open>getMessages\<close> reads the field \<open>messages\<close> of the session and defaults to the empty
  object, \<open>getUnreadCount\<close> defaults to \<open>0\<close> and \<open>isAuthenticated\<close> to \<open>false\<close>.
\<close>

definition getMessages ::
  "(ChatProviderManager \<Rightarrow> (string \<times> 'msgs) list) \<Rightarrow> ('u, 'c) Manager \<Rightarrow>
     string \<Rightarrow> (string \<times> 'msgs) list" where
  "getMessages cp_messages m providerName =
     (case getChatProvider m providerName of
        Some cp \<Rightarrow> cp_messages cp
      | None \<Rightarrow> [])"

definition getUnreadCount ::
  "(ChatProviderManager \<Rightarrow> 'channel \<Rightarrow> error + int) \<Rightarrow> ('u, 'c) Manager \<Rightarrow>
     string \<Rightarrow> 'channel \<Rightarrow> error + int" where
  "getUnreadCount cp_getUnreadCount m provider channel =
     (case getChatProvider m provider of
        Some cp \<Rightarrow> cp_getUnreadCount cp channel
      | None \<Rightarrow> Inr 0)"

definition isAuthenticated ::
  "(ChatProviderManager \<Rightarrow> error + bool) \<Rightarrow> ('u, 'c) Manager \<Rightarrow>
     string option \<Rightarrow> error + bool" where
  "isAuthenticated cp_isAuthenticated m providerName =
     (case providerName of
        None \<Rightarrow> Inr False
      | Some p \<Rightarrow>
          (case getChatProvider m p of
             Some cp \<Rightarrow> cp_isAuthenticated cp
           | None \<Rightarrow> Inr False))"

definition isProviderEnabled :: "('u, 'c) Manager \<Rightarrow> string \<Rightarrow> bool" where
  "isProviderEnabled m provider =
     (case getChatProvider m provider of Some cp \<Rightarrow> True | None \<Rightarrow> False)"

subsection \<open>Notions used in the statements\<close>

text \<open>The items of a list that have not been seen before, in order.\<close>

fun firsts :: "'a set \<Rightarrow> 'a list \<Rightarrow> 'a list" where
  "firsts seen [] = []"
| "firsts seen (x # xs) =
     (if x \<in> seen then firsts seen xs else x # firsts (insert x seen) xs)"

text \<open>The providers for which a list of calls constructs a session.\<close>

fun created :: "'u effect list \<Rightarrow> string list" where
  "created [] = []"
| "created (New_ChatProviderManager p b # es) = p # created es"
| "created (e # es) = created es"

text \<open>
  \<open>extends m m'\<close>: every session of \<open>m\<close> is the session of the same provider in
  \<open>m'\<close>, and the flag \<open>isTokenInitialized\<close>, once set, stays set.
\<close>

definition extends :: "('u, 'c) Manager \<Rightarrow> ('u, 'c) Manager \<Rightarrow> bool" where
  "extends m m' \<longleftrightarrow>
     (\<forall>p s. getChatProvider m p = Some s \<longrightarrow> getChatProvider m' p = Some s) \<and>
     (isTokenInitialized m \<longrightarrow> isTokenInitialized m')"

text \<open>What \<open>initializeToken\<close> appends to the enabled providers.\<close>

definition newProvider_list :: "string option \<Rightarrow> string list" where
  "newProvider_list np = (case np of None \<Rightarrow> [] | Some p \<Rightarrow> if p \<noteq> [] then [p] else [])"

text \<open>The registered providers other than \<open>vsls\<close>, in registration order.\<close>

definition signedOut :: "('u, 'c) Manager \<Rightarrow> string list" where
  "signedOut m = filter (\<lambda>p. p \<noteq> ''vsls'') (map_keys (chatProviders m))"

text \<open>The sessions found under the keys \<open>ks\<close> other than \<open>vsls\<close>.\<close>

definition destroyed ::
  "(string, ChatProviderManager) js_map \<Rightarrow> string list \<Rightarrow> ChatProviderManager list" where
  "destroyed cps ks =
     concat (map (\<lambda>k. if k \<noteq> ''vsls''
                       then (case map_get cps k of Some s \<Rightarrow> [s] | None \<Rightarrow> [])
                       else []) ks)"

subsection \<open>Example states\<close>

text \<open>
  A store with a current user for Slack and for Discord, tokens for both and for
  \<open>vsls\<close>, a manager before any session exists and the manager once the three sessions
  are registered. Users and channels are represented by their names.
\<close>

definition example_store :: "(string, string) IStore" where
  "example_store =
     \<lparr>s_currentUserInfo =
        [\<lparr>cu_id = ''U1'', cu_provider = ''slack'', cu_currentTeamId = Some ''T1''\<rparr>,
         \<lparr>cu_id = ''D1'', cu_provider = ''discord'', cu_currentTeamId = None\<rparr>],
      s_users = (\<lambda>p. if p = ''slack'' then [(''U1'', ''ann''), (''U2'', ''bob'')]
                     else if p = ''discord'' then [(''D1'', ''ann'')] else []),
      s_channels = (\<lambda>p. if p = ''slack'' then [''general'', ''random'']
                        else if p = ''discord'' then [''lobby''] else []),
      s_lastChannelId = (\<lambda>p. if p = ''slack'' then Some ''C1''
                             else if p = ''discord'' then Some ''L1'' else None)\<rparr>"

definition example_tokens :: tokens where
  "example_tokens =
     (\<lambda>p. if p = ''slack'' then Some ''xoxp-1''
          else if p = ''discord'' then Some ''dsc-1''
          else if p = ''vsls'' then Some ''vsls-1'' else None)"

definition example_sessions :: "(string, ChatProviderManager) js_map" where
  "example_sessions =
     [(''slack'', \<lparr>cpm_providerName = ''slack'', cpm_chatProvider = SlackChatProvider ''xoxp-1''\<rparr>),
      (''discord'',
         \<lparr>cpm_providerName = ''discord'', cpm_chatProvider = DiscordChatProvider ''dsc-1''\<rparr>),
      (''vsls'', \<lparr>cpm_providerName = ''vsls'', cpm_chatProvider = VslsChatProvider\<rparr>)]"

definition example_fresh :: "(string, string) Manager" where
  "example_fresh =
     \<lparr>isTokenInitialized = False, vslsContactProvider = None, chatProviders = [],
      store = example_store\<rparr>"

definition example_running :: "(string, string) Manager" where
  "example_running =
     \<lparr>isTokenInitialized = True, vslsContactProvider = None,
      chatProviders = example_sessions, store = example_store\<rparr>"

text \<open>The tokens left by \<open>signout\<close> on the running manager.\<close>

definition example_signed_out_tokens :: tokens where
  "example_signed_out_tokens = clearToken ''discord'' (clearToken ''slack'' example_tokens)"

definition example_labels :: "ChatProviderManager \<Rightarrow> string list" where
  "example_labels cp =
     (if cpm_providerName cp = ''slack'' then [''random'', ''general'']
      else if cpm_providerName cp = ''discord'' then [''lobby''] else [])"

definition example_bound :: "(string, string) Manager" where
  "example_bound =
     example_running\<lparr>vslsContactProvider :=
       Some \<lparr>vcp_presenceProvider = ''slack'', vcp_isInitialized = True\<rparr>\<rparr>"

section \<open>Properties\<close>

subsection \<open>Arrays and maps\<close>

lemma indexOf_from_absent: "item \<notin> set xs \<Longrightarrow> indexOf_from xs item pos = - 1"
  by (induction xs arbitrary: pos) auto

lemma indexOf_from_ge: "item \<in> set xs \<Longrightarrow> int pos \<le> indexOf_from xs item pos"
proof (induction xs arbitrary: pos)
  case Nil
  then show ?case by simp
next
  case (Cons x xs)
  show ?case
  proof (cases "x = item")
    case True
    then show ?thesis by simp
  next
    case False
    with Cons.prems have "item \<in> set xs" by simp
    from Cons.IH [OF this, of "Suc pos"] False show ?thesis by simp
  qed
qed

lemma indexOf_from_append:
  "indexOf_from (pre @ xs) item pos =
     (if item \<in> set pre then indexOf_from pre item pos
      else indexOf_from xs item (pos + length pre))"
  by (induction pre arbitrary: pos) auto

lemma indexOf_from_less:
  "item \<in> set xs \<Longrightarrow> indexOf_from xs item pos < int (pos + length xs)"
proof (induction xs arbitrary: pos)
  case Nil
  then show ?case by simp
next
  case (Cons x xs)
  show ?case
  proof (cases "x = item")
    case True
    then show ?thesis by simp
  next
    case False
    with Cons.prems have "item \<in> set xs" by simp
    from Cons.IH [OF this, of "Suc pos"] False show ?thesis by simp
  qed
qed

text \<open>
  The item at position \<open>length pre\<close> is its own first occurrence exactly when it does
  not occur before.
\<close>

lemma indexOf_first:
  "indexOf (pre @ x # rest) x = int (length pre) \<longleftrightarrow> x \<notin> set pre"
proof (cases "x \<in> set pre")
  case True
  from indexOf_from_less [OF True, of 0] True show ?thesis
    by (simp add: indexOf_def indexOf_from_append)
next
  case False
  then show ?thesis by (simp add: indexOf_def indexOf_from_append)
qed

lemma filter_from_firsts:
  "filter_from (\<lambda>item pos. indexOf (pre @ xs) item = int pos) xs (length pre) =
     firsts (set pre) xs"
proof (induction xs arbitrary: pre)
  case Nil
  show ?case by simp
next
  case (Cons x xs)
  have step: "filter_from (\<lambda>item pos. indexOf ((pre @ [x]) @ xs) item = int pos) xs
                (length (pre @ [x])) = firsts (set (pre @ [x])) xs"
    by (rule Cons.IH)
  have seen: "x \<in> set pre \<Longrightarrow> firsts (insert x (set pre)) xs = firsts (set pre) xs"
    by (simp add: insert_absorb)
  from step seen show ?case
    by (simp add: indexOf_first)
qed

lemma set_firsts: "set (firsts seen xs) = set xs - seen"
  by (induction xs arbitrary: seen) auto

lemma distinct_firsts: "distinct (firsts seen xs)"
  by (induction xs arbitrary: seen) (auto simp: set_firsts)

lemma firsts_id: "distinct xs \<Longrightarrow> set xs \<inter> seen = {} \<Longrightarrow> firsts seen xs = xs"
  by (induction xs arbitrary: seen) auto

lemma count_list_distinct: "distinct xs \<Longrightarrow> x \<in> set xs \<Longrightarrow> count_list xs x = 1"
  by (induction xs) auto

lemma unique_filter_firsts:
  "filter_array (\<lambda>item pos. indexOf xs item = int pos) xs = firsts {} xs"
  using filter_from_firsts [of "[]" xs] by (simp add: filter_array_def)

lemma map_get_map_set:
  "map_get (map_set k v m) k' = (if k' = k then Some v else map_get m k')"
  by (induction m) (auto simp: map_get_def)

lemma keys_map_set:
  "map fst (map_set k v m) = (if k \<in> fst ` set m then map fst m else map fst m @ [k])"
  by (induction m) auto

lemma map_get_None_iff: "map_get m k = None \<longleftrightarrow> k \<notin> fst ` set m"
  by (simp add: map_get_def map_of_eq_None_iff)

lemma wf_map_set: "wf_map m \<Longrightarrow> wf_map (map_set k v m)"
  by (simp add: wf_map_def keys_map_set)

lemma map_get_map_delete:
  "map_get (map_delete k m) k' = (if k' = k then None else map_get m k')"
  by (induction m) (auto simp: map_get_def map_delete_def)

lemma wf_map_delete: "wf_map m \<Longrightarrow> wf_map (map_delete k m)"
  by (simp add: wf_map_def map_delete_def distinct_map_filter)

lemma wf_map_get: "wf_map cps \<Longrightarrow> (k, v) \<in> set cps \<Longrightarrow> map_get cps k = Some v"
  by (simp add: wf_map_def map_get_def)

lemma filter_key_absent: "k \<notin> fst ` set cps \<Longrightarrow> filter (\<lambda>e. fst e = k) cps = []"
  by (induction cps) auto

lemma filter_key_wf:
  "wf_map cps \<Longrightarrow>
   filter (\<lambda>e. fst e = k) cps = (case map_get cps k of None \<Rightarrow> [] | Some v \<Rightarrow> [(k, v)])"
proof (induction cps)
  case Nil
  show ?case by (simp add: map_get_def)
next
  case (Cons e cps)
  then have wf: "wf_map cps" and ne: "fst e \<notin> fst ` set cps"
    by (simp_all add: wf_map_def)
  show ?case
  proof (cases "fst e = k")
    case True
    with ne have "filter (\<lambda>e. fst e = k) cps = []"
      by (simp add: filter_key_absent)
    with True show ?thesis by (cases e) (simp add: map_get_def)
  next
    case False
    with Cons.IH [OF wf] show ?thesis by (simp add: map_get_def)
  qed
qed

subsection \<open>The enabled providers\<close>

lemma getEnabledProviders_firsts:
  "getEnabledProviders hasVsls m =
     firsts {} (map cu_provider (getCurrentUserForAll (store m)) @
                (if hasVsls then [''vsls''] else []))"
  by (simp add: getEnabledProviders_def Let_def unique_filter_firsts)

lemma enabled_has_current_user:
  assumes "p \<in> set (getEnabledProviders hasVsls m)" and "p \<noteq> ''vsls''"
  shows "\<exists>cu. getCurrentUser (store m) p = Some cu"
proof -
  from assms have "p \<in> cu_provider ` set (s_currentUserInfo (store m))"
    by (auto simp: getEnabledProviders_firsts set_firsts getCurrentUserForAll_def
        split: if_splits)
  then have "find (\<lambda>u. cu_provider u = p) (s_currentUserInfo (store m)) \<noteq> None"
    by (auto simp: find_None_iff)
  then show ?thesis by (auto simp: getCurrentUser_def)
qed

lemmas example_defs = example_store_def example_tokens_def example_sessions_def
  example_fresh_def example_running_def

lemma wf_fresh: "wf_map (chatProviders example_fresh)"
  by (simp add: example_defs wf_map_def)

lemma wf_running: "wf_map (chatProviders example_running)"
  by (simp add: example_defs wf_map_def)

lemma enabled_example: "getEnabledProviders True example_fresh = [''slack'', ''discord'', ''vsls'']"
  by (simp add: getEnabledProviders_def getCurrentUserForAll_def filter_array_def
        indexOf_def Let_def example_defs)

lemma enabled_example_running:
  "getEnabledProviders True example_running = [''slack'', ''discord'', ''vsls'']"
  by (simp add: getEnabledProviders_def getCurrentUserForAll_def filter_array_def
        indexOf_def Let_def example_defs)

text \<open>
  C4. Whatever current users the store holds and whether or not the Live Share
  extension is installed, \<open>getEnabledProviders\<close> returns every provider of a stored
  current user, and \<open>vsls\<close> when the extension is installed, once each: the result has
  no duplicates, every discovered provider occurs in it exactly once, and nothing else
  occurs in it.
\<close>

theorem getEnabledProviders_unique:
  "distinct (getEnabledProviders hasVsls m) \<and>
   set (getEnabledProviders hasVsls m) =
     cu_provider ` set (getCurrentUserForAll (store m)) \<union> (if hasVsls then {''vsls''} else {}) \<and>
   (\<forall>p. count_list (getEnabledProviders hasVsls m) p =
      (if p \<in> cu_provider ` set (getCurrentUserForAll (store m)) \<or> (hasVsls \<and> p = ''vsls'')
       then 1 else 0))"
proof -
  let ?r = "getEnabledProviders hasVsls m"
  let ?ps = "map cu_provider (getCurrentUserForAll (store m)) @ (if hasVsls then [''vsls''] else [])"
  have r: "?r = firsts {} ?ps"
    by (simp add: getEnabledProviders_def Let_def unique_filter_firsts)
  have d: "distinct ?r"
    by (simp only: r distinct_firsts)
  have s: "set ?r =
      cu_provider ` set (getCurrentUserForAll (store m)) \<union> (if hasVsls then {''vsls''} else {})"
    by (simp add: r set_firsts)
  have c: "count_list ?r p =
      (if p \<in> cu_provider ` set (getCurrentUserForAll (store m)) \<or> (hasVsls \<and> p = ''vsls'')
       then 1 else 0)" for p
  proof (cases "p \<in> set ?r")
    case True
    with d have "count_list ?r p = 1"
      by (simp add: count_list_distinct)
    with True s show ?thesis by (auto split: if_splits)
  next
    case False
    then have "count_list ?r p = 0" by (simp add: count_list_0_iff)
    with False s show ?thesis by (auto split: if_splits)
  qed
  from d s c show ?thesis by blast
qed

theorem getEnabledProviders_unique_witness:
  "getEnabledProviders True
     \<lparr>isTokenInitialized = False, vslsContactProvider = None, chatProviders = [],
      store = \<lparr>s_currentUserInfo =
                 [\<lparr>cu_id = ''U1'', cu_provider = ''vsls'', cu_currentTeamId = None\<rparr>,
                  \<lparr>cu_id = ''U2'', cu_provider = ''slack'', cu_currentTeamId = None\<rparr>],
               s_users = (\<lambda>p. ([] :: (string \<times> unit) list)),
               s_channels = (\<lambda>p. ([] :: unit list)),
               s_lastChannelId = (\<lambda>p. None)\<rparr>\<rparr> = [''vsls'', ''slack''] \<and>
   distinct (getEnabledProviders True
     \<lparr>isTokenInitialized = False, vslsContactProvider = None, chatProviders = [],
      store = \<lparr>s_currentUserInfo =
                 [\<lparr>cu_id = ''U1'', cu_provider = ''vsls'', cu_currentTeamId = None\<rparr>,
                  \<lparr>cu_id = ''U2'', cu_provider = ''slack'', cu_currentTeamId = None\<rparr>],
               s_users = (\<lambda>p. ([] :: (string \<times> unit) list)),
               s_channels = (\<lambda>p. ([] :: unit list)),
               s_lastChannelId = (\<lambda>p. None)\<rparr>\<rparr>)"
proof -
  let ?m = "\<lparr>isTokenInitialized = False, vslsContactProvider = None, chatProviders = [],
      store = \<lparr>s_currentUserInfo =
                 [\<lparr>cu_id = ''U1'', cu_provider = ''vsls'', cu_currentTeamId = None\<rparr>,
                  \<lparr>cu_id = ''U2'', cu_provider = ''slack'', cu_currentTeamId = None\<rparr>],
               s_users = (\<lambda>p. ([] :: (string \<times> unit) list)),
               s_channels = (\<lambda>p. ([] :: unit list)),
               s_lastChannelId = (\<lambda>p. None)\<rparr>\<rparr>"
  have "getEnabledProviders True ?m = [''vsls'', ''slack'']"
    by (simp add: getEnabledProviders_def getCurrentUserForAll_def filter_array_def
        indexOf_def Let_def)
  with getEnabledProviders_unique [of True ?m] show ?thesis by blast
qed

subsection \<open>The factory\<close>

text \<open>
  C8. For every provider name other than \<open>discord\<close>, \<open>slack\<close> and \<open>vsls\<close> and every
  token, \<open>instantiateChatProvider\<close> throws: it returns no backend.
\<close>

theorem instantiateChatProvider_unsupported:
  "provider \<notin> {''discord'', ''slack'', ''vsls''} \<Longrightarrow>
     instantiateChatProvider token provider =
       Inl (Error (''unsupport chat provider: '' @ provider)) \<and>
     (\<forall>cp. instantiateChatProvider token provider \<noteq> Inr cp)"
  by (simp add: instantiateChatProvider_def)

theorem instantiateChatProvider_unsupported_witness:
  "''teams'' \<notin> {''discord'', ''slack'', ''vsls''} \<and>
   instantiateChatProvider ''xoxp-1'' ''teams'' =
     Inl (Error ''unsupport chat provider: teams'')"
  using instantiateChatProvider_unsupported [of "''teams''" "''xoxp-1''"] by simp

subsection \<open>initializeToken\<close>

lemma created_append: "created (xs @ ys) = created xs @ created ys"
  by (induction xs rule: created.induct) auto

lemma extends_refl: "extends m m" by (simp add: extends_def)
lemma extends_trans: "extends a b \<Longrightarrow> extends b c \<Longrightarrow> extends a c" by (simp add: extends_def)

lemma keys_map_set_new: "map_get m k = None \<Longrightarrow> map fst (map_set k v m) = map fst m @ [k]"
  by (simp add: keys_map_set map_get_None_iff)

lemma body_facts:
  assumes "initializeToken_body tok p m = (r, m', effs)"
  shows "extends m m'"
    and "store m' = store m"
    and "vslsContactProvider m' = vslsContactProvider m"
    and "map fst (chatProviders m') = map fst (chatProviders m) @ created effs"
    and "r \<noteq> None \<Longrightarrow> m' = m \<and> effs = []"
  using assms
  by (auto simp: initializeToken_body_def extends_def getChatProvider_def map_get_map_set
      keys_map_set_new
      split: if_splits option.splits sum.splits)

lemma body_wf:
  assumes "initializeToken_body tok p m = (r, m', effs)" and "wf_map (chatProviders m)"
  shows "wf_map (chatProviders m')"
  using assms
  by (auto simp: initializeToken_body_def wf_map_set
      split: if_splits option.splits sum.splits)

lemma body_again:
  assumes "initializeToken_body tok p m = (None, m1, effs)" and "extends m1 m'"
  shows "initializeToken_body tok p m' = (None, m', [])"
  using assms
  by (auto simp: initializeToken_body_def extends_def getChatProvider_def map_get_map_set
      split: if_splits option.splits sum.splits)


lemma loop_facts:
  "initializeToken_loop tok ps m = (r, m', effs) \<Longrightarrow>
     extends m m' \<and> store m' = store m \<and> vslsContactProvider m' = vslsContactProvider m \<and>
     map fst (chatProviders m') = map fst (chatProviders m) @ created effs"
proof (induction ps arbitrary: m r m' effs)
  case Nil
  then show ?case by (simp add: extends_refl)
next
  case (Cons p ps)
  obtain r1 m1 e1
    where b: "initializeToken_body tok p m = (r1, m1, e1)"
    using prod_cases3 by blast
  note bf = body_facts [OF b]
  show ?case
  proof (cases r1)
    case None
    obtain r2 m2 e2
      where l: "initializeToken_loop tok ps m1 = (r2, m2, e2)"
      using prod_cases3 by blast
    from Cons.prems b None l have eq: "r = r2" "m' = m2" "effs = e1 @ e2" by auto
    from Cons.IH [OF l] bf eq show ?thesis
      by (auto simp: created_append intro: extends_trans)
  next
    case (Some e)
    with Cons.prems b have "m' = m1" "effs = e1" by auto
    with bf show ?thesis by simp
  qed
qed

lemma loop_wf:
  "initializeToken_loop tok ps m = (r, m', effs) \<Longrightarrow> wf_map (chatProviders m) \<Longrightarrow>
     wf_map (chatProviders m')"
proof (induction ps arbitrary: m r m' effs)
  case Nil
  then show ?case by simp
next
  case (Cons p ps)
  obtain r1 m1 e1 where b: "initializeToken_body tok p m = (r1, m1, e1)"
    using prod_cases3 by blast
  from body_wf [OF b Cons.prems(2)] have w1: "wf_map (chatProviders m1)" .
  show ?case
  proof (cases r1)
    case None
    obtain r2 m2 e2 where l: "initializeToken_loop tok ps m1 = (r2, m2, e2)"
      using prod_cases3 by blast
    from Cons.prems(1) b None l have "m' = m2" by auto
    with Cons.IH [OF l w1] show ?thesis by simp
  next
    case (Some e)
    with Cons.prems(1) b have "m' = m1" by auto
    with w1 show ?thesis by simp
  qed
qed

lemma loop_again:
  "initializeToken_loop tok ps m = (r, m', effs) \<Longrightarrow>
     initializeToken_loop tok ps m' = (r, m', [])"
proof (induction ps arbitrary: m r m' effs)
  case Nil
  then show ?case by simp
next
  case (Cons p ps)
  obtain r1 m1 e1
    where b: "initializeToken_body tok p m = (r1, m1, e1)"
    using prod_cases3 by blast
  show ?case
  proof (cases r1)
    case None
    obtain r2 m2 e2
      where l: "initializeToken_loop tok ps m1 = (r2, m2, e2)"
      using prod_cases3 by blast
    from Cons.prems b None l have eq: "r = r2" "m' = m2" by auto
    from loop_facts [OF l] eq have "extends m1 m'" by simp
    with b None have "initializeToken_body tok p m' = (None, m', [])"
      by (simp add: body_again)
    moreover from Cons.IH [OF l] eq have "initializeToken_loop tok ps m' = (r, m', [])"
      by simp
    ultimately show ?thesis by simp
  next
    case (Some e)
    with Cons.prems b have "m' = m1" "r = Some e" by auto
    moreover from body_facts(5) [OF b] Some have "m1 = m" "e1 = []" by simp_all
    ultimately show ?thesis using b Some by simp
  qed
qed

lemma getEnabledProviders_store:
  "store m' = store m \<Longrightarrow> getEnabledProviders h m' = getEnabledProviders h m"
  by (simp add: getEnabledProviders_def)

lemma initializeToken_list:
  "(case np of None \<Rightarrow> xs | Some p \<Rightarrow> if p \<noteq> [] then xs @ [p] else xs) =
     xs @ newProvider_list np"
  by (cases np) (simp_all add: newProvider_list_def)

lemma initializeToken_ok:
  assumes "initializeToken_loop tok (getEnabledProviders hasVsls m @ newProvider_list np) m =
             (None, m0, e0)"
  shows "initializeToken getTeams hasVsls tok np m =
           (None, m0, e0 @ initializeViewsManager getTeams m0)"
  unfolding initializeToken_def Let_def initializeToken_list assms by simp

lemma initializeToken_err:
  assumes "initializeToken_loop tok (getEnabledProviders hasVsls m @ newProvider_list np) m =
             (Some e, m0, e0)"
  shows "initializeToken getTeams hasVsls tok np m = (Some e, m0, e0)"
  unfolding initializeToken_def Let_def initializeToken_list assms by simp

lemma created_views: "created (initializeViewsManager g m) = []"
  by (simp add: initializeViewsManager_def Let_def)

lemma initializeToken_loop_of:
  assumes "initializeToken getTeams hasVsls tok np m = (r, m', effs)"
  obtains e0 where
    "initializeToken_loop tok (getEnabledProviders hasVsls m @ newProvider_list np) m =
       (r, m', e0)"
    and "created effs = created e0"
    and "r = None \<Longrightarrow> effs = e0 @ initializeViewsManager getTeams m'"
    and "r \<noteq> None \<Longrightarrow> effs = e0"
proof -
  obtain r0 m0 e0 where l:
    "initializeToken_loop tok (getEnabledProviders hasVsls m @ newProvider_list np) m = (r0, m0, e0)"
    using prod_cases3 by blast
  show thesis
  proof (cases r0)
    case None
    with l have "initializeToken getTeams hasVsls tok np m =
        (None, m0, e0 @ initializeViewsManager getTeams m0)"
      by (simp add: initializeToken_ok)
    with assms have eq: "r = None" "m' = m0" "effs = e0 @ initializeViewsManager getTeams m0"
      by auto
    have "created effs = created e0"
      unfolding eq by (simp add: created_append created_views)
    with l None eq show thesis
      by (intro that [of e0]) simp_all
  next
    case (Some e)
    with l have "initializeToken getTeams hasVsls tok np m = (Some e, m0, e0)"
      by (simp add: initializeToken_err)
    with assms have eq: "r = Some e" "m' = m0" "effs = e0"
      by auto
    with l Some show thesis
      by (intro that [of e0]) simp_all
  qed
qed

lemma initializeToken_facts:
  assumes "initializeToken getTeams hasVsls tok np m = (r, m', effs)"
  shows "extends m m' \<and> store m' = store m \<and> vslsContactProvider m' = vslsContactProvider m \<and>
     map fst (chatProviders m') = map fst (chatProviders m) @ created effs"
proof -
  from assms obtain e0 where l:
    "initializeToken_loop tok (getEnabledProviders hasVsls m @ newProvider_list np) m = (r, m', e0)"
    and c: "created effs = created e0"
    by (rule initializeToken_loop_of)
  from loop_facts [OF l] c show ?thesis by simp
qed

lemma initializeToken_wf:
  assumes "initializeToken getTeams hasVsls tok np m = (r, m', effs)"
    and "wf_map (chatProviders m)"
  shows "wf_map (chatProviders m')"
proof -
  from assms(1) obtain e0 where l:
    "initializeToken_loop tok (getEnabledProviders hasVsls m @ newProvider_list np) m = (r, m', e0)"
    by (rule initializeToken_loop_of)
  from loop_wf [OF l assms(2)] show ?thesis .
qed

lemma initializeToken_again:
  assumes "initializeToken getTeams hasVsls tok np m = (r, m', effs)"
  shows "initializeToken getTeams hasVsls tok np m' =
           (r, m', case r of None \<Rightarrow> initializeViewsManager getTeams m' | Some e \<Rightarrow> [])"
proof -
  from assms obtain e0 where l:
    "initializeToken_loop tok (getEnabledProviders hasVsls m @ newProvider_list np) m = (r, m', e0)"
    by (rule initializeToken_loop_of)
  from loop_facts [OF l] have "store m' = store m" by simp
  then have "getEnabledProviders hasVsls m' = getEnabledProviders hasVsls m"
    by (rule getEnabledProviders_store)
  with loop_again [OF l]
  have again: "initializeToken_loop tok (getEnabledProviders hasVsls m' @ newProvider_list np) m' =
          (r, m', [])"
    by simp
  show ?thesis
  proof (cases r)
    case None
    with again show ?thesis by (simp add: initializeToken_ok)
  next
    case (Some e)
    with again show ?thesis by (simp add: initializeToken_err)
  qed
qed

lemma initializeToken_example_fresh: "initializeToken (\<lambda>cp. []) True example_tokens (Some ''slack'') example_fresh =
   (None, example_running,
    [New_ChatProviderManager ''slack'' (SlackChatProvider ''xoxp-1''),
     New_ChatProviderManager ''discord'' (DiscordChatProvider ''dsc-1''),
     New_ChatProviderManager ''vsls'' VslsChatProvider,
     ViewsManager_initialize [''slack'', ''discord'', ''vsls'']
       [(''slack'', []), (''discord'', []), (''vsls'', [])]])"
  unfolding initializeToken_def Let_def enabled_example
  by (simp add: initializeToken_body_def
      getToken_def getChatProvider_def map_get_def instantiateChatProvider_def
      initializeViewsManager_def map_keys_def example_defs)

lemma initializeToken_example_running: "initializeToken (\<lambda>cp. []) True example_tokens (Some ''slack'') example_running =
   (None, example_running,
    [ViewsManager_initialize [''slack'', ''discord'', ''vsls'']
       [(''slack'', []), (''discord'', []), (''vsls'', [])]])"
  unfolding initializeToken_def Let_def enabled_example_running
  by (simp add: initializeToken_body_def
      getToken_def getChatProvider_def map_get_def instantiateChatProvider_def
      initializeViewsManager_def map_keys_def example_defs)

text \<open>
  C1. \<open>initializeToken\<close> is idempotent and incremental. Take any manager whose registry
  is a map, any stored tokens and any two calls of \<open>initializeToken\<close> made one after the
  other with these tokens, each with any \<open>newProvider\<close> argument, whether or not a call
  throws. Then the registry still holds one session per provider; over both calls a
  session is constructed at most once per provider and never for a provider that had
  one; the registry is the old one followed by the sessions constructed; a provider that
  held a session before a call holds the very same session after it; and when the second
  call repeats the first, it constructs nothing and leaves the manager as the first call
  left it. The new provider may be one that is enabled already: it is then met twice in
  the loop, and the second time it has its session.
\<close>

theorem initializeToken_idempotent:
  assumes wf: "wf_map (chatProviders m)"
    and run1: "initializeToken getTeams hasVsls tok np1 m = (r1, m1, effs1)"
    and run2: "initializeToken getTeams hasVsls tok np2 m1 = (r2, m2, effs2)"
  shows "wf_map (chatProviders m1) \<and> wf_map (chatProviders m2) \<and>
         distinct (created (effs1 @ effs2)) \<and>
         set (created (effs1 @ effs2)) \<inter> set (map_keys (chatProviders m)) = {} \<and>
         map_keys (chatProviders m2) = map_keys (chatProviders m) @ created (effs1 @ effs2) \<and>
         (\<forall>p s. getChatProvider m p = Some s \<longrightarrow>
            getChatProvider m1 p = Some s \<and> getChatProvider m2 p = Some s) \<and>
         (\<forall>p s. getChatProvider m1 p = Some s \<longrightarrow> getChatProvider m2 p = Some s) \<and>
         (np2 = np1 \<longrightarrow> m2 = m1 \<and> r2 = r1 \<and> created effs2 = [])"
proof -
  note f1 = initializeToken_facts [OF run1]
  note f2 = initializeToken_facts [OF run2]
  from f1 f2 have keys: "map fst (chatProviders m2) =
      map fst (chatProviders m) @ created (effs1 @ effs2)"
    by (simp add: created_append)
  have same: "m2 = m1 \<and> r2 = r1 \<and> created effs2 = []" if "np2 = np1"
  proof -
    define X where "X = (case r1 of None \<Rightarrow> initializeViewsManager getTeams m1 | Some e \<Rightarrow> [])"
    have cX: "created X = []"
      unfolding X_def by (cases r1) (simp_all add: created_views)
    from initializeToken_again [OF run1] that
    have "initializeToken getTeams hasVsls tok np2 m1 = (r1, m1, X)"
      unfolding X_def by simp
    with run2 have "(r2, m2, effs2) = (r1, m1, X)" by simp
    with cX show ?thesis by simp
  qed
  from keys have keys': "map_keys (chatProviders m2) =
      map_keys (chatProviders m) @ created (effs1 @ effs2)"
    by (simp add: map_keys_def)
  have ext: "extends m m1" "extends m1 m2"
    using f1 f2 by simp_all
  have wf1: "wf_map (chatProviders m1)"
    by (rule initializeToken_wf [OF run1 wf])
  have wf2: "wf_map (chatProviders m2)"
    by (rule initializeToken_wf [OF run2 wf1])
  from wf2 keys' have d: "distinct (map_keys (chatProviders m) @ created (effs1 @ effs2))"
    by (simp add: wf_map_def map_keys_def)
  then have d1: "distinct (created (effs1 @ effs2))"
    and d2: "set (created (effs1 @ effs2)) \<inter> set (map_keys (chatProviders m)) = {}"
    by auto
  have keep: "getChatProvider m1 p = Some s \<and> getChatProvider m2 p = Some s"
    if "getChatProvider m p = Some s" for p s
    using ext that by (simp add: extends_def)
  have keep1: "getChatProvider m2 p = Some s" if "getChatProvider m1 p = Some s" for p s
    using ext that by (simp add: extends_def)
  from wf1 wf2 d1 d2 keys' keep keep1 same show ?thesis
    by blast
qed

theorem initializeToken_idempotent_witness:
  "wf_map (chatProviders example_fresh) \<and>
   initializeToken (\<lambda>cp. []) True example_tokens (Some ''slack'') example_fresh =
     (None, example_running,
      [New_ChatProviderManager ''slack'' (SlackChatProvider ''xoxp-1''),
       New_ChatProviderManager ''discord'' (DiscordChatProvider ''dsc-1''),
       New_ChatProviderManager ''vsls'' VslsChatProvider,
       ViewsManager_initialize [''slack'', ''discord'', ''vsls'']
         [(''slack'', []), (''discord'', []), (''vsls'', [])]]) \<and>
   initializeToken (\<lambda>cp. []) True example_tokens (Some ''slack'') example_running =
     (None, example_running,
      [ViewsManager_initialize [''slack'', ''discord'', ''vsls'']
         [(''slack'', []), (''discord'', []), (''vsls'', [])]]) \<and>
   wf_map (chatProviders example_running) \<and>
   map_keys (chatProviders example_running) =
     map_keys (chatProviders example_fresh) @ [''slack'', ''discord'', ''vsls'']"
  using initializeToken_idempotent [OF wf_fresh initializeToken_example_fresh initializeToken_example_running]
    wf_fresh initializeToken_example_fresh initializeToken_example_running
  by (simp add: created_append)

subsection \<open>signout\<close>

lemma signout_loop_eq:
  "signout_loop es tok h =
     (fold clearToken (filter (\<lambda>p. p \<noteq> ''vsls'') (map fst es)) tok,
      h \<or> filter (\<lambda>p. p \<noteq> ''vsls'') (map fst es) \<noteq> [],
      map ConfigHelper_clearToken (filter (\<lambda>p. p \<noteq> ''vsls'') (map fst es)))"
  by (induction es arbitrary: tok h) (simp_all add: Let_def)

lemma fold_clearToken: "fold clearToken ps tok p = (if p \<in> set ps then None else tok p)"
  by (induction ps arbitrary: tok) (auto simp: clearToken_def)

lemma signout_eq:
  "signout tok m =
     (m, fold clearToken (signedOut m) tok,
      map ConfigHelper_clearToken (signedOut m) @
        (if signedOut m \<noteq> [] then [ExecuteCommand_RESET_STORE] else []))"
  by (simp add: signout_def signout_loop_eq signedOut_def map_entries_def map_keys_def)

lemma count_reset_clear: "count_list (map ConfigHelper_clearToken ps) ExecuteCommand_RESET_STORE = 0"
  by (induction ps) auto

lemma signout_example:
  "signout example_tokens example_running =
     (example_running, clearToken ''discord'' (clearToken ''slack'' example_tokens),
      [ConfigHelper_clearToken ''slack'', ConfigHelper_clearToken ''discord'',
       ExecuteCommand_RESET_STORE])"
  by (simp add: signout_def map_entries_def Let_def example_running_def example_sessions_def)

lemma count_reset_effs:
  "count_list (map ConfigHelper_clearToken ps @ (if ps \<noteq> [] then [ExecuteCommand_RESET_STORE] else []))
     ExecuteCommand_RESET_STORE = (if ps \<noteq> [] then 1 else 0)"
  by (simp add: count_reset_clear)

text \<open>
  C2, as the code has it. \<open>signout\<close> calls \<open>clearToken\<close> for every registered provider
  other than \<open>vsls\<close>, in registration order, and for no other; afterwards none of these
  providers has a stored token, and the token of \<open>vsls\<close> and of every provider without a
  session is what it was. The command \<open>RESET_STORE\<close> is sent exactly once when at least
  one provider other than \<open>vsls\<close> is registered, whether or not a token was stored for
  it, and is not sent otherwise. Hence whenever a stored token has actually been removed
  the command is sent once; and when every registered provider other than \<open>vsls\<close> has a
  stored token, the command is sent once if and only if a stored token has actually been
  removed.
\<close>

theorem signout_resets_iff_registered:
  assumes "signout tok m = (m', tok', effs)"
  shows "effs = map ConfigHelper_clearToken (signedOut m) @
                  (if signedOut m \<noteq> [] then [ExecuteCommand_RESET_STORE] else []) \<and>
         (\<forall>p \<in> set (map_keys (chatProviders m)). p \<noteq> ''vsls'' \<longrightarrow> getToken tok' p = None) \<and>
         (\<forall>p. p = ''vsls'' \<or> p \<notin> set (map_keys (chatProviders m)) \<longrightarrow>
              getToken tok' p = getToken tok p) \<and>
         count_list effs ExecuteCommand_RESET_STORE = (if signedOut m \<noteq> [] then 1 else 0) \<and>
         ((\<exists>p. getToken tok p \<noteq> None \<and> getToken tok' p = None) \<longrightarrow>
            count_list effs ExecuteCommand_RESET_STORE = 1) \<and>
         ((\<forall>p \<in> set (signedOut m). getToken tok p \<noteq> None) \<longrightarrow>
            (count_list effs ExecuteCommand_RESET_STORE = 1 \<longleftrightarrow>
               (\<exists>p. getToken tok p \<noteq> None \<and> getToken tok' p = None)))"
proof -
  from assms have t: "tok' = fold clearToken (signedOut m) tok"
    and e: "effs = map ConfigHelper_clearToken (signedOut m) @
                  (if signedOut m \<noteq> [] then [ExecuteCommand_RESET_STORE] else [])"
    by (auto simp: signout_eq)
  have s: "set (signedOut m) = {p \<in> set (map_keys (chatProviders m)). p \<noteq> ''vsls''}"
    by (auto simp: signedOut_def)
  have tk: "getToken tok' p = (if p \<in> set (signedOut m) then None else getToken tok p)" for p
    by (simp add: t getToken_def fold_clearToken)
  have c1: "\<forall>p \<in> set (map_keys (chatProviders m)). p \<noteq> ''vsls'' \<longrightarrow> getToken tok' p = None"
    by (simp add: tk s)
  have c2: "\<forall>p. p = ''vsls'' \<or> p \<notin> set (map_keys (chatProviders m)) \<longrightarrow>
              getToken tok' p = getToken tok p"
    by (auto simp: tk s)
  have c3: "count_list effs ExecuteCommand_RESET_STORE = (if signedOut m \<noteq> [] then 1 else 0)"
    unfolding e by (rule count_reset_effs)
  have c4: "count_list effs ExecuteCommand_RESET_STORE = 1"
    if "\<exists>p. getToken tok p \<noteq> None \<and> getToken tok' p = None"
  proof -
    from that obtain p where "getToken tok p \<noteq> None" "getToken tok' p = None" by blast
    then have "p \<in> set (signedOut m)" by (auto simp: tk split: if_splits)
    then have "signedOut m \<noteq> []" by auto
    with c3 show ?thesis by simp
  qed
  have c5: "count_list effs ExecuteCommand_RESET_STORE = 1 \<longleftrightarrow>
               (\<exists>p. getToken tok p \<noteq> None \<and> getToken tok' p = None)"
    if inv: "\<forall>p \<in> set (signedOut m). getToken tok p \<noteq> None"
  proof
    assume one: "count_list effs ExecuteCommand_RESET_STORE = 1"
    have "signedOut m \<noteq> []"
    proof
      assume "signedOut m = []"
      then have "count_list effs ExecuteCommand_RESET_STORE = 0" by (simp add: c3)
      with one show False by simp
    qed
    then obtain p where p: "p \<in> set (signedOut m)" by (cases "signedOut m") auto
    with inv have "getToken tok p \<noteq> None" by blast
    moreover from p have "getToken tok' p = None" by (simp add: tk)
    ultimately show "\<exists>p. getToken tok p \<noteq> None \<and> getToken tok' p = None" by blast
  next
    assume "\<exists>p. getToken tok p \<noteq> None \<and> getToken tok' p = None"
    then show "count_list effs ExecuteCommand_RESET_STORE = 1" by (rule c4)
  qed
  show ?thesis
  proof (intro conjI impI)
    show "effs = map ConfigHelper_clearToken (signedOut m) @
                  (if signedOut m \<noteq> [] then [ExecuteCommand_RESET_STORE] else [])"
      by (rule e)
    show "\<forall>p \<in> set (map_keys (chatProviders m)). p \<noteq> ''vsls'' \<longrightarrow> getToken tok' p = None"
      by (rule c1)
    show "\<forall>p. p = ''vsls'' \<or> p \<notin> set (map_keys (chatProviders m)) \<longrightarrow>
              getToken tok' p = getToken tok p"
      by (rule c2)
    show "count_list effs ExecuteCommand_RESET_STORE = (if signedOut m \<noteq> [] then 1 else 0)"
      by (rule c3)
    show "count_list effs ExecuteCommand_RESET_STORE = 1"
      if "\<exists>p. getToken tok p \<noteq> None \<and> getToken tok' p = None"
      using that by (rule c4)
    show "count_list effs ExecuteCommand_RESET_STORE = 1 \<longleftrightarrow>
               (\<exists>p. getToken tok p \<noteq> None \<and> getToken tok' p = None)"
      if "\<forall>p \<in> set (signedOut m). getToken tok p \<noteq> None"
      using that by (rule c5)
  qed
qed

theorem signout_resets_iff_registered_witness:
  "signout example_tokens example_running =
     (example_running, example_signed_out_tokens,
      [ConfigHelper_clearToken ''slack'', ConfigHelper_clearToken ''discord'',
       ExecuteCommand_RESET_STORE]) \<and>
   signedOut example_running = [''slack'', ''discord''] \<and>
   getToken example_tokens ''slack'' \<noteq> None \<and>
   getToken example_tokens ''discord'' \<noteq> None \<and>
   getToken example_signed_out_tokens ''slack'' = None \<and>
   getToken example_signed_out_tokens ''vsls'' = getToken example_tokens ''vsls'' \<and>
   count_list [ConfigHelper_clearToken ''slack'', ConfigHelper_clearToken ''discord'',
               ExecuteCommand_RESET_STORE] ExecuteCommand_RESET_STORE = 1"
proof -
  have run: "signout example_tokens example_running =
     (example_running, example_signed_out_tokens,
      [ConfigHelper_clearToken ''slack'', ConfigHelper_clearToken ''discord'',
       ExecuteCommand_RESET_STORE])"
    unfolding example_signed_out_tokens_def by (rule signout_example)
  have so: "signedOut example_running = [''slack'', ''discord'']"
    by (simp add: signedOut_def map_keys_def example_running_def example_sessions_def)
  have k: "''slack'' \<in> set (map_keys (chatProviders example_running))"
    by (simp add: map_keys_def example_running_def example_sessions_def)
  have inv: "\<forall>p \<in> set (signedOut example_running). getToken example_tokens p \<noteq> None"
    by (simp add: so getToken_def example_tokens_def)
  have g: "getToken example_tokens ''slack'' \<noteq> None" "getToken example_tokens ''discord'' \<noteq> None"
    by (simp_all add: getToken_def example_tokens_def)
  from signout_resets_iff_registered [OF run] run so k inv g
  show ?thesis by auto
qed

text \<open>
  The command does not wait for a token to have been stored: after a first \<open>signout\<close> the
  sessions are still registered and no token is left for Slack or Discord; a second
  \<open>signout\<close> removes nothing, the secret store stays as it is, and \<open>RESET_STORE\<close> is
  sent once all the same.
\<close>

theorem signout_resets_without_credential:
  "getToken example_signed_out_tokens ''slack'' = None \<and>
   getToken example_signed_out_tokens ''discord'' = None \<and>
   signout example_signed_out_tokens example_running =
     (example_running, example_signed_out_tokens,
      [ConfigHelper_clearToken ''slack'', ConfigHelper_clearToken ''discord'',
       ExecuteCommand_RESET_STORE]) \<and>
   count_list [ConfigHelper_clearToken ''slack'', ConfigHelper_clearToken ''discord'',
               ExecuteCommand_RESET_STORE :: string effect] ExecuteCommand_RESET_STORE = 1"
proof -
  have i: "clearToken ''discord'' (clearToken ''slack'' example_signed_out_tokens) =
      example_signed_out_tokens"
    by (simp add: example_signed_out_tokens_def clearToken_def fun_eq_iff)
  have "signout example_signed_out_tokens example_running =
     (example_running, clearToken ''discord'' (clearToken ''slack'' example_signed_out_tokens),
      [ConfigHelper_clearToken ''slack'', ConfigHelper_clearToken ''discord'',
       ExecuteCommand_RESET_STORE])"
    by (simp add: signout_def map_entries_def Let_def example_running_def example_sessions_def)
  then have run: "signout example_signed_out_tokens example_running =
     (example_running, example_signed_out_tokens,
      [ConfigHelper_clearToken ''slack'', ConfigHelper_clearToken ''discord'',
       ExecuteCommand_RESET_STORE])"
    by (simp only: i)
  have g: "getToken example_signed_out_tokens ''slack'' = None"
    "getToken example_signed_out_tokens ''discord'' = None"
    by (simp_all add: getToken_def example_signed_out_tokens_def clearToken_def)
  have c: "count_list [ConfigHelper_clearToken ''slack'', ConfigHelper_clearToken ''discord'',
               ExecuteCommand_RESET_STORE :: string effect] ExecuteCommand_RESET_STORE = 1"
    by simp
  from g run c show ?thesis by (intro conjI)
qed

text \<open>
  When no provider other than \<open>vsls\<close> is registered, \<open>signout\<close> clears nothing and sends
  nothing.
\<close>

lemma signout_presence_only:
  "signedOut m = [] \<Longrightarrow> signout tok m = (m, tok, [])"
  by (simp add: signout_eq)

text \<open>
  C10. \<open>signout\<close> returns the manager it was given: the registry holds the same sessions
  under the same providers, \<open>isTokenInitialized\<close> is unchanged, and no session is
  destroyed. Only tokens are cleared and the reset command possibly sent.
\<close>

theorem signout_keeps_registry:
  "fst (signout tok m) = m \<and>
   chatProviders (fst (signout tok m)) = chatProviders m \<and>
   isTokenInitialized (fst (signout tok m)) = isTokenInitialized m \<and>
   (\<forall>s. ChatProviderManager_destroy s \<notin> set (snd (snd (signout tok m))))"
  by (auto simp: signout_eq)

theorem signout_keeps_registry_witness:
  "fst (signout example_tokens example_running) = example_running \<and>
   ChatProviderManager_destroy
     \<lparr>cpm_providerName = ''slack'', cpm_chatProvider = SlackChatProvider ''xoxp-1''\<rparr>
     \<notin> set (snd (snd (signout example_tokens example_running)))"
  using signout_keeps_registry [of example_tokens example_running] by blast

subsection \<open>clearAll\<close>

lemma destroyed_cong:
  "(\<And>k. k \<in> set ks \<Longrightarrow> map_get cps k = map_get cps' k) \<Longrightarrow> destroyed cps ks = destroyed cps' ks"
  by (induction ks) (auto simp: destroyed_def)

lemma clearAll_loop_eq:
  "distinct ks \<Longrightarrow>
   clearAll_loop ks m =
     (m\<lparr>store := fold clearProviderState (filter (\<lambda>p. p \<noteq> ''vsls'') ks) (store m),
        chatProviders := filter (\<lambda>e. fst e = ''vsls'' \<or> fst e \<notin> set ks) (chatProviders m)\<rparr>,
      map ChatProviderManager_destroy (destroyed (chatProviders m) ks))"
proof (induction ks arbitrary: m)
  case Nil
  show ?case by (simp add: destroyed_def)
next
  case (Cons k ks)
  then have d: "distinct ks" and nk: "k \<notin> set ks" by simp_all
  show ?case
  proof (cases "k = ''vsls''")
    case True
    have "filter (\<lambda>e. fst e = ''vsls'' \<or> fst e \<notin> set (k # ks)) (chatProviders m) =
          filter (\<lambda>e. fst e = ''vsls'' \<or> fst e \<notin> set ks) (chatProviders m)"
      by (rule filter_cong) (use True in auto)
    moreover have "destroyed (chatProviders m) (k # ks) = destroyed (chatProviders m) ks"
      using True by (simp add: destroyed_def)
    moreover have "clearAll_loop (k # ks) m = clearAll_loop ks m"
      using True by simp
    moreover have "filter (\<lambda>p. p \<noteq> ''vsls'') (k # ks) = filter (\<lambda>p. p \<noteq> ''vsls'') ks"
      using True by simp
    ultimately show ?thesis
      using Cons.IH [OF d, of m] by (simp only:)
  next
    case False
    let ?m1 = "m\<lparr>store := clearProviderState k (store m)\<rparr>"
    have st: "fold clearProviderState (filter (\<lambda>p. p \<noteq> ''vsls'') (k # ks)) (store m) =
              fold clearProviderState (filter (\<lambda>p. p \<noteq> ''vsls'') ks) (store ?m1)"
      using False by simp
    show ?thesis
    proof (cases "map_get (chatProviders m) k")
      case None
      then have "k \<notin> fst ` set (chatProviders m)"
        by (simp add: map_get_None_iff)
      then have reg: "filter (\<lambda>e. fst e = ''vsls'' \<or> fst e \<notin> set (k # ks)) (chatProviders m) =
          filter (\<lambda>e. fst e = ''vsls'' \<or> fst e \<notin> set ks) (chatProviders ?m1)"
        by (auto intro!: filter_cong)
      have des: "destroyed (chatProviders m) (k # ks) = destroyed (chatProviders ?m1) ks"
        using False None by (simp add: destroyed_def)
      have "clearAll_loop (k # ks) m = clearAll_loop ks ?m1"
        using False None by (simp add: getChatProvider_def)
      also note Cons.IH [OF d, of ?m1]
      finally show ?thesis
        unfolding st reg des by simp
    next
      case (Some s)
      let ?m2 = "?m1\<lparr>chatProviders := map_delete k (chatProviders ?m1)\<rparr>"
      have reg: "filter (\<lambda>e. fst e = ''vsls'' \<or> fst e \<notin> set (k # ks)) (chatProviders m) =
          filter (\<lambda>e. fst e = ''vsls'' \<or> fst e \<notin> set ks) (chatProviders ?m2)"
        using False by (auto simp: map_delete_def intro!: filter_cong)
      have "destroyed (map_delete k (chatProviders m)) ks = destroyed (chatProviders m) ks"
        by (rule destroyed_cong) (use nk in \<open>auto simp: map_get_map_delete\<close>)
      moreover have "destroyed (chatProviders m) (k # ks) = s # destroyed (chatProviders m) ks"
        using False Some by (simp add: destroyed_def)
      ultimately have des: "destroyed (chatProviders m) (k # ks) = s # destroyed (chatProviders ?m2) ks"
        by simp
      have st2: "store ?m2 = store ?m1" by simp
      have "clearAll_loop (k # ks) m =
          (fst (clearAll_loop ks ?m2), ChatProviderManager_destroy s # snd (clearAll_loop ks ?m2))"
        using False Some by (simp add: getChatProvider_def split: prod.splits)
      also have "\<dots> = (?m2\<lparr>store := fold clearProviderState (filter (\<lambda>p. p \<noteq> ''vsls'') ks) (store ?m2),
           chatProviders := filter (\<lambda>e. fst e = ''vsls'' \<or> fst e \<notin> set ks) (chatProviders ?m2)\<rparr>,
          ChatProviderManager_destroy s #
            map ChatProviderManager_destroy (destroyed (chatProviders ?m2) ks))"
        by (simp only: Cons.IH [OF d, of ?m2] fst_conv snd_conv)
      finally show ?thesis
        unfolding st reg des by simp
    qed
  qed
qed

lemma destroyed_keys:
  "wf_map cps \<Longrightarrow>
   destroyed cps (map fst cps) = map snd (filter (\<lambda>e. fst e \<noteq> ''vsls'') cps)"
proof -
  assume wf: "wf_map cps"
  have "set es \<subseteq> set cps \<Longrightarrow>
      destroyed cps (map fst es) = map snd (filter (\<lambda>e. fst e \<noteq> ''vsls'') es)" for es
  proof (induction es)
    case Nil
    show ?case by (simp add: destroyed_def)
  next
    case (Cons e es)
    then have "(fst e, snd e) \<in> set cps" by simp
    from wf_map_get [OF wf this] Cons show ?case
      by (simp add: destroyed_def)
  qed
  then show ?thesis by simp
qed

lemma clearAll_eq:
  assumes "wf_map (chatProviders m)"
  shows "clearAll m =
     (m\<lparr>store := fold clearProviderState
                    (filter (\<lambda>p. p \<noteq> ''vsls'') (map_keys (chatProviders m))) (store m),
        chatProviders := filter (\<lambda>e. fst e = ''vsls'') (chatProviders m),
        isTokenInitialized := False\<rparr>,
      map ChatProviderManager_destroy
        (map snd (filter (\<lambda>e. fst e \<noteq> ''vsls'') (chatProviders m))))"
proof -
  from assms have d: "distinct (map fst (chatProviders m))" by (simp add: wf_map_def)
  have f: "filter (\<lambda>e. fst e = ''vsls'' \<or> fst e \<notin> set (map fst (chatProviders m))) (chatProviders m) =
           filter (\<lambda>e. fst e = ''vsls'') (chatProviders m)"
    by (rule filter_cong) auto
  have "clearAll m =
      (case clearAll_loop (map fst (chatProviders m)) m of
         (m1, effs) \<Rightarrow> (m1\<lparr>isTokenInitialized := False\<rparr>, effs))"
    by (simp add: clearAll_def Let_def map_keys_def)
  then show ?thesis
    unfolding clearAll_loop_eq [OF d] f destroyed_keys [OF assms] map_keys_def by simp
qed

lemma fold_clearProviderState:
  "fold clearProviderState ps s =
     s\<lparr>s_currentUserInfo := filter (\<lambda>u. cu_provider u \<notin> set ps) (s_currentUserInfo s),
       s_users := (\<lambda>p. if p \<in> set ps then [] else s_users s p),
       s_channels := (\<lambda>p. if p \<in> set ps then [] else s_channels s p),
       s_lastChannelId := (\<lambda>p. if p \<in> set ps then None else s_lastChannelId s p)\<rparr>"
proof (induction ps arbitrary: s)
  case Nil
  show ?case by simp
next
  case (Cons a ps)
  have "fold clearProviderState (a # ps) s = fold clearProviderState ps (clearProviderState a s)"
    by simp
  also note Cons.IH [of "clearProviderState a s"]
  finally have e: "fold clearProviderState (a # ps) s =
    (clearProviderState a s)\<lparr>s_currentUserInfo :=
         filter (\<lambda>u. cu_provider u \<notin> set ps) (s_currentUserInfo (clearProviderState a s)),
       s_users := (\<lambda>p. if p \<in> set ps then [] else s_users (clearProviderState a s) p),
       s_channels := (\<lambda>p. if p \<in> set ps then [] else s_channels (clearProviderState a s) p),
       s_lastChannelId :=
         (\<lambda>p. if p \<in> set ps then None else s_lastChannelId (clearProviderState a s) p)\<rparr>" .
  show ?case
    unfolding e by (auto simp: clearProviderState_def fun_eq_iff conj_commute)
qed

lemma find_None_filter: "find P (filter Q xs) = None \<longleftrightarrow> (\<forall>x \<in> set xs. Q x \<longrightarrow> \<not> P x)"
  by (induction xs) auto

lemma clearAll_wf:
  "wf_map (chatProviders m) \<Longrightarrow> wf_map (chatProviders (fst (clearAll m)))"
  by (simp add: clearAll_eq wf_map_def distinct_map_filter)

text \<open>
  C3. After \<open>clearAll\<close> on a manager whose registry is a map: the registry holds the
  session of \<open>vsls\<close>, unchanged, if there was one, and nothing else; every other session
  has been destroyed, once, in registration order; the store has been cleared with
  \<open>clearProviderState\<close> for every registered provider other than \<open>vsls\<close>, so that it holds
  no current user, users, channels or last channel for it; \<open>isTokenInitialized\<close> is
  false; and the presence bridge is untouched.
\<close>

theorem clearAll_keeps_presence:
  assumes wf: "wf_map (chatProviders m)" and run: "clearAll m = (m', effs)"
  shows "chatProviders m' = filter (\<lambda>e. fst e = ''vsls'') (chatProviders m) \<and>
         (\<forall>p. p \<noteq> ''vsls'' \<longrightarrow> getChatProvider m' p = None) \<and>
         getChatProvider m' ''vsls'' = getChatProvider m ''vsls'' \<and>
         effs = map ChatProviderManager_destroy
                  (map snd (filter (\<lambda>e. fst e \<noteq> ''vsls'') (chatProviders m))) \<and>
         store m' = fold clearProviderState
                      (filter (\<lambda>p. p \<noteq> ''vsls'') (map_keys (chatProviders m))) (store m) \<and>
         (\<forall>p \<in> set (map_keys (chatProviders m)). p \<noteq> ''vsls'' \<longrightarrow>
            getCurrentUser (store m') p = None \<and> getUsers (store m') p = [] \<and>
            s_channels (store m') p = [] \<and> s_lastChannelId (store m') p = None) \<and>
         \<not> isTokenInitialized m' \<and>
         vslsContactProvider m' = vslsContactProvider m"
proof -
  let ?ps = "filter (\<lambda>p. p \<noteq> ''vsls'') (map_keys (chatProviders m))"
  from run clearAll_eq [OF wf]
  have m': "m' = m\<lparr>store := fold clearProviderState ?ps (store m),
        chatProviders := filter (\<lambda>e. fst e = ''vsls'') (chatProviders m),
        isTokenInitialized := False\<rparr>"
    and e: "effs = map ChatProviderManager_destroy
                  (map snd (filter (\<lambda>e. fst e \<noteq> ''vsls'') (chatProviders m)))"
    by auto
  have reg: "chatProviders m' = filter (\<lambda>e. fst e = ''vsls'') (chatProviders m)"
    by (simp add: m')
  have gone: "getChatProvider m' p = None" if "p \<noteq> ''vsls''" for p
    using that by (auto simp: getChatProvider_def reg map_get_None_iff)
  have "map_of (filter (\<lambda>e. fst e = k) cps) k = map_of cps k"
    for k :: string and cps :: "(string \<times> ChatProviderManager) list"
    by (induction cps) auto
  then have kept: "getChatProvider m' ''vsls'' = getChatProvider m ''vsls''"
    by (simp add: getChatProvider_def reg map_get_def)
  have st: "store m' = fold clearProviderState ?ps (store m)"
    by (simp add: m')
  have cleared: "getCurrentUser (store m') p = None \<and> getUsers (store m') p = [] \<and>
            s_channels (store m') p = [] \<and> s_lastChannelId (store m') p = None"
    if "p \<in> set (map_keys (chatProviders m))" "p \<noteq> ''vsls''" for p
  proof -
    from that have "p \<in> set ?ps" by simp
    then show ?thesis
      unfolding st fold_clearProviderState
      by (auto simp: getCurrentUser_def getUsers_def find_None_filter)
  qed
  have flag: "\<not> isTokenInitialized m'" by (simp add: m')
  have br: "vslsContactProvider m' = vslsContactProvider m" by (simp add: m')
  from reg gone kept e st cleared flag br show ?thesis by blast
qed

theorem clearAll_keeps_presence_witness:
  "wf_map (chatProviders example_running) \<and>
   chatProviders (fst (clearAll example_running)) =
     [(''vsls'', \<lparr>cpm_providerName = ''vsls'', cpm_chatProvider = VslsChatProvider\<rparr>)] \<and>
   snd (clearAll example_running) =
     [ChatProviderManager_destroy
        \<lparr>cpm_providerName = ''slack'', cpm_chatProvider = SlackChatProvider ''xoxp-1''\<rparr>,
      ChatProviderManager_destroy
        \<lparr>cpm_providerName = ''discord'', cpm_chatProvider = DiscordChatProvider ''dsc-1''\<rparr>] \<and>
   getChatProvider (fst (clearAll example_running)) ''slack'' = None \<and>
   getUsers (store (fst (clearAll example_running))) ''slack'' = [] \<and>
   \<not> isTokenInitialized (fst (clearAll example_running))"
proof -
  have run: "clearAll example_running =
      (fst (clearAll example_running), (snd (clearAll example_running) :: string effect list))"
    by simp
  have k: "''slack'' \<in> set (map_keys (chatProviders example_running))"
    by (simp add: map_keys_def example_running_def example_sessions_def)
  have f: "filter (\<lambda>e. fst e = ''vsls'') (chatProviders example_running) =
      [(''vsls'', \<lparr>cpm_providerName = ''vsls'', cpm_chatProvider = VslsChatProvider\<rparr>)]"
    by (simp add: example_running_def example_sessions_def)
  have g: "map ChatProviderManager_destroy
        (map snd (filter (\<lambda>e. fst e \<noteq> ''vsls'') (chatProviders example_running))) =
     [ChatProviderManager_destroy
        \<lparr>cpm_providerName = ''slack'', cpm_chatProvider = SlackChatProvider ''xoxp-1''\<rparr>,
      ChatProviderManager_destroy
        \<lparr>cpm_providerName = ''discord'', cpm_chatProvider = DiscordChatProvider ''dsc-1''\<rparr>]"
    by (simp add: example_running_def example_sessions_def)
  from clearAll_keeps_presence [OF wf_running run] k f g wf_running
  show ?thesis by auto
qed

subsection \<open>clearOldWorkspace\<close>

text \<open>
  C7. \<open>clearOldWorkspace p\<close> leaves provider \<open>p\<close> with no users, no channels and no last
  selected channel in the store. It does not touch the registry (the session of \<open>p\<close> stays
  registered and is not destroyed), the flag, the bridge or the current users, and the
  users, channels and last selected channel of every other provider are what they were.
\<close>

theorem clearOldWorkspace_frame:
  "getUsers (store (clearOldWorkspace p m)) p = [] \<and>
   s_channels (store (clearOldWorkspace p m)) p = [] \<and>
   s_lastChannelId (store (clearOldWorkspace p m)) p = None \<and>
   chatProviders (clearOldWorkspace p m) = chatProviders m \<and>
   getChatProvider (clearOldWorkspace p m) = getChatProvider m \<and>
   isTokenInitialized (clearOldWorkspace p m) = isTokenInitialized m \<and>
   vslsContactProvider (clearOldWorkspace p m) = vslsContactProvider m \<and>
   s_currentUserInfo (store (clearOldWorkspace p m)) = s_currentUserInfo (store m) \<and>
   (\<forall>q. q \<noteq> p \<longrightarrow>
      getUsers (store (clearOldWorkspace p m)) q = getUsers (store m) q \<and>
      s_channels (store (clearOldWorkspace p m)) q = s_channels (store m) q \<and>
      s_lastChannelId (store (clearOldWorkspace p m)) q = s_lastChannelId (store m) q)"
  by (simp add: clearOldWorkspace_def updateUsers_def updateChannels_def
      updateLastChannelId_def getUsers_def getChatProvider_def fun_eq_iff)

theorem clearOldWorkspace_frame_witness:
  "''discord'' \<noteq> ''slack'' \<and>
   getUsers (store (clearOldWorkspace ''slack'' example_running)) ''slack'' = [] \<and>
   s_channels (store (clearOldWorkspace ''slack'' example_running)) ''slack'' = [] \<and>
   s_lastChannelId (store (clearOldWorkspace ''slack'' example_running)) ''slack'' = None \<and>
   chatProviders (clearOldWorkspace ''slack'' example_running) = example_sessions \<and>
   getUsers (store (clearOldWorkspace ''slack'' example_running)) ''discord'' = [(''D1'', ''ann'')] \<and>
   s_channels (store (clearOldWorkspace ''slack'' example_running)) ''discord'' = [''lobby''] \<and>
   s_lastChannelId (store (clearOldWorkspace ''slack'' example_running)) ''discord'' = Some ''L1''"
proof -
  have d: "''discord'' \<noteq> ''slack''" by simp
  have o: "getUsers (store example_running) ''discord'' = [(''D1'', ''ann'')]"
    "s_channels (store example_running) ''discord'' = [''lobby'']"
    "s_lastChannelId (store example_running) ''discord'' = Some ''L1''"
    "chatProviders example_running = example_sessions"
    by (simp_all add: getUsers_def example_running_def example_store_def)
  from clearOldWorkspace_frame [of "''slack''" example_running] d o
  show ?thesis by auto
qed

subsection \<open>getChannelLabels\<close>

lemma getChannelLabels_loop_eq:
  "getChannelLabels_loop gl prov es acc =
     acc @ concat (map (\<lambda>e. gl (snd e))
                    (filter (\<lambda>e. \<not> truthy prov \<or> prov = Some (fst e)) es))"
  by (induction es arbitrary: acc) (simp_all add: Let_def)

text \<open>
  C6. Without a provider argument, \<open>getChannelLabels\<close> returns the labels of every
  registered session, concatenated in registration order (the order of the entries of the
  map), not sorted. With a provider \<open>p\<close> given (a non-empty name; JavaScript takes the
  empty string for no argument) and a registry that is a map, it returns the labels of the
  session of \<open>p\<close>, and the empty list when \<open>p\<close> has no session.
\<close>

theorem getChannelLabels_order:
  "getChannelLabels gl m None = concat (map (\<lambda>e. gl (snd e)) (map_entries (chatProviders m))) \<and>
   (wf_map (chatProviders m) \<and> p \<noteq> [] \<longrightarrow>
      getChannelLabels gl m (Some p) =
        (case getChatProvider m p of None \<Rightarrow> [] | Some cp \<Rightarrow> gl cp))"
proof -
  have all: "getChannelLabels gl m None =
      concat (map (\<lambda>e. gl (snd e)) (map_entries (chatProviders m)))"
    by (simp add: getChannelLabels_def getChannelLabels_loop_eq truthy_def)
  have one: "getChannelLabels gl m (Some p) =
        (case getChatProvider m p of None \<Rightarrow> [] | Some cp \<Rightarrow> gl cp)"
    if wf: "wf_map (chatProviders m)" and p: "p \<noteq> []"
  proof -
    have "filter (\<lambda>e. \<not> truthy (Some p) \<or> Some p = Some (fst e)) (chatProviders m) =
          filter (\<lambda>e. fst e = p) (chatProviders m)"
      using p by (auto simp: truthy_def intro!: filter_cong)
    then show ?thesis
      by (simp add: getChannelLabels_def getChannelLabels_loop_eq map_entries_def
          filter_key_wf [OF wf] getChatProvider_def split: option.splits)
  qed
  from all one show ?thesis by blast
qed

theorem getChannelLabels_order_witness:
  "wf_map (chatProviders example_running) \<and> ''slack'' \<noteq> [] \<and>
   getChannelLabels example_labels example_running None = [''random'', ''general'', ''lobby''] \<and>
   getChannelLabels example_labels example_running (Some ''slack'') = [''random'', ''general'']"
proof -
  have a: "concat (map (\<lambda>e. example_labels (snd e)) (map_entries (chatProviders example_running))) =
      [''random'', ''general'', ''lobby'']"
    by (simp add: map_entries_def example_running_def example_sessions_def example_labels_def)
  have b: "(case getChatProvider example_running ''slack'' of None \<Rightarrow> [] | Some cp \<Rightarrow> example_labels cp) =
      [''random'', ''general'']"
    by (simp add: getChatProvider_def map_get_def example_running_def example_sessions_def
        example_labels_def)
  have p: "''slack'' \<noteq> []" by simp
  from getChannelLabels_order [of example_labels example_running "''slack''"] wf_running p a b
  show ?thesis by simp
qed

text \<open>
  The empty string is falsy: \<open>getChannelLabels("")\<close> is \<open>getChannelLabels(undefined)\<close>.
\<close>

lemma getChannelLabels_empty_name:
  "getChannelLabels gl m (Some []) = getChannelLabels gl m None"
  by (simp add: getChannelLabels_def getChannelLabels_loop_eq truthy_def)

subsection \<open>The binding of the presence bridge\<close>

text \<open>
  C9. When the Live Share extension is installed, some enabled provider is not \<open>vsls\<close>
  and no initialized bridge exists, \<open>initializeVslsContactProvider\<close> constructs one
  bridge, bound to the first enabled provider other than \<open>vsls\<close>, registers it and
  announces the current user of that provider and its users, once each. When a bridge
  exists and is initialized, the call changes nothing and makes no call at all. Without
  the extension, or with no enabled provider other than \<open>vsls\<close>, it changes nothing
  either.
\<close>

theorem initializeVslsContactProvider_binds:
  "(hasVsls \<and>
    filter (\<lambda>p. p \<noteq> ''vsls'') (getEnabledProviders hasVsls m) = first # others \<and>
    (\<forall>b. vslsContactProvider m = Some b \<longrightarrow> \<not> vcp_isInitialized b) \<longrightarrow>
      (\<exists>cu. getCurrentUser (store m) first = Some cu \<and>
         initializeVslsContactProvider hasVsls registered m =
           (m\<lparr>vslsContactProvider :=
                Some \<lparr>vcp_presenceProvider = first, vcp_isInitialized = registered\<rparr>\<rparr>,
            [New_VslsContactProvider first,
             VslsContactProvider_register,
             NotifySelfContact (map_of (getUsers (store m) first) (cu_id cu)),
             NotifyAvailableUsers (cu_id cu) (getUsers (store m) first)]))) \<and>
   ((\<exists>b. vslsContactProvider m = Some b \<and> vcp_isInitialized b) \<longrightarrow>
      initializeVslsContactProvider hasVsls registered m = (m, [])) \<and>
   (\<not> hasVsls \<or> filter (\<lambda>p. p \<noteq> ''vsls'') (getEnabledProviders hasVsls m) = [] \<longrightarrow>
      initializeVslsContactProvider hasVsls registered m = (m, []))"
proof (intro conjI impI)
  assume a: "hasVsls \<and>
    filter (\<lambda>p. p \<noteq> ''vsls'') (getEnabledProviders hasVsls m) = first # others \<and>
    (\<forall>b. vslsContactProvider m = Some b \<longrightarrow> \<not> vcp_isInitialized b)"
  then have hv: hasVsls
    and f: "filter (\<lambda>p. p \<noteq> ''vsls'') (getEnabledProviders hasVsls m) = first # others"
    and nb: "\<forall>b. vslsContactProvider m = Some b \<longrightarrow> \<not> vcp_isInitialized b"
    by blast+
  have "first \<in> set (filter (\<lambda>p. p \<noteq> ''vsls'') (getEnabledProviders hasVsls m))"
    unfolding f by simp
  then have "first \<in> set (getEnabledProviders hasVsls m)" "first \<noteq> ''vsls''"
    by simp_all
  then obtain cu where cu: "getCurrentUser (store m) first = Some cu"
    using enabled_has_current_user by blast
  from nb have ni: "(case vslsContactProvider m of None \<Rightarrow> True | Some v \<Rightarrow> \<not> vcp_isInitialized v)"
    by (cases "vslsContactProvider m") simp_all
  from hv f cu ni have "initializeVslsContactProvider hasVsls registered m =
           (m\<lparr>vslsContactProvider :=
                Some \<lparr>vcp_presenceProvider = first, vcp_isInitialized = registered\<rparr>\<rparr>,
            [New_VslsContactProvider first,
             VslsContactProvider_register,
             NotifySelfContact (map_of (getUsers (store m) first) (cu_id cu)),
             NotifyAvailableUsers (cu_id cu) (getUsers (store m) first)])"
    by (simp add: initializeVslsContactProvider_def Let_def)
  with cu show "\<exists>cu. getCurrentUser (store m) first = Some cu \<and>
         initializeVslsContactProvider hasVsls registered m =
           (m\<lparr>vslsContactProvider :=
                Some \<lparr>vcp_presenceProvider = first, vcp_isInitialized = registered\<rparr>\<rparr>,
            [New_VslsContactProvider first,
             VslsContactProvider_register,
             NotifySelfContact (map_of (getUsers (store m) first) (cu_id cu)),
             NotifyAvailableUsers (cu_id cu) (getUsers (store m) first)])"
    by blast
next
  assume "\<exists>b. vslsContactProvider m = Some b \<and> vcp_isInitialized b"
  then show "initializeVslsContactProvider hasVsls registered m = (m, [])"
    by (auto simp: initializeVslsContactProvider_def Let_def split: list.splits option.splits)
next
  assume "\<not> hasVsls \<or> filter (\<lambda>p. p \<noteq> ''vsls'') (getEnabledProviders hasVsls m) = []"
  then show "initializeVslsContactProvider hasVsls registered m = (m, [])"
    by (auto simp: initializeVslsContactProvider_def Let_def)
qed

theorem initializeVslsContactProvider_binds_witness:
  "filter (\<lambda>p. p \<noteq> ''vsls'') (getEnabledProviders True example_running) =
     ''slack'' # [''discord''] \<and>
   initializeVslsContactProvider True True example_running =
     (example_bound,
      [New_VslsContactProvider ''slack'', VslsContactProvider_register,
       NotifySelfContact (Some ''ann''),
       NotifyAvailableUsers ''U1'' [(''U1'', ''ann''), (''U2'', ''bob'')]]) \<and>
   initializeVslsContactProvider True True example_bound = (example_bound, [])"
proof -
  have f: "filter (\<lambda>p. p \<noteq> ''vsls'') (getEnabledProviders True example_running) =
     ''slack'' # [''discord'']"
    by (simp add: enabled_example_running)
  have n: "\<forall>b. vslsContactProvider example_running = Some b \<longrightarrow> \<not> vcp_isInitialized b"
    by (simp add: example_running_def)
  have cu: "getCurrentUser (store example_running) ''slack'' =
      Some \<lparr>cu_id = ''U1'', cu_provider = ''slack'', cu_currentTeamId = Some ''T1''\<rparr>"
    by (simp add: getCurrentUser_def example_running_def example_store_def)
  have us: "getUsers (store example_running) ''slack'' = [(''U1'', ''ann''), (''U2'', ''bob'')]"
    by (simp add: getUsers_def example_running_def example_store_def)
  have b: "\<exists>b. vslsContactProvider example_bound = Some b \<and> vcp_isInitialized b"
    by (simp add: example_bound_def)
  from initializeVslsContactProvider_binds
         [of True example_running "''slack''" "[''discord'']" True] f n
  obtain c where c: "getCurrentUser (store example_running) ''slack'' = Some c"
    and r: "initializeVslsContactProvider True True example_running =
           (example_running\<lparr>vslsContactProvider :=
                Some \<lparr>vcp_presenceProvider = ''slack'', vcp_isInitialized = True\<rparr>\<rparr>,
            [New_VslsContactProvider ''slack'',
             VslsContactProvider_register,
             NotifySelfContact (map_of (getUsers (store example_running) ''slack'') (cu_id c)),
             NotifyAvailableUsers (cu_id c) (getUsers (store example_running) ''slack'')])"
    by blast
  from c cu have "cu_id c = ''U1''" by auto
  with r us have first: "initializeVslsContactProvider True True example_running =
     (example_bound,
      [New_VslsContactProvider ''slack'', VslsContactProvider_register,
       NotifySelfContact (Some ''ann''),
       NotifyAvailableUsers ''U1'' [(''U1'', ''ann''), (''U2'', ''bob'')]])"
    by (simp add: example_bound_def)
  from initializeVslsContactProvider_binds [of True example_bound _ _ True] b
  have second: "initializeVslsContactProvider True True example_bound = (example_bound, [])"
    by blast
  from f first second show ?thesis by blast
qed

subsection \<open>Dispatch to a provider without a session\<close>

text \<open>
  C5. For a provider without a registered session, each of \<open>sendMessage\<close>,
  \<open>fetchUsers\<close>, \<open>fetchChannels\<close>, \<open>getChannel\<close>, \<open>createIMChannel\<close>,
  \<open>updateSelfPresence\<close>, \<open>getUserPresence\<close>, \<open>getCurrentUserPresence\<close>, \<open>addReaction\<close>,
  \<open>removeReaction\<close>, \<open>loadChannelHistory\<close>, \<open>fetchThreadReplies\<close>,
  \<open>updateChannelMarked\<close>, \<open>updateReadMarker\<close>, \<open>updateMessageReply\<close>, \<open>updateMessages\<close>
  and \<open>updatePresenceForUser\<close> returns \<open>undefined\<close> and does not throw, whatever the
  method of the session class would have done.
\<close>

theorem dispatch_absent_undefined:
  assumes "getChatProvider m p = None"
  shows "sendMessage cp_sendMessage m p text channelId parentTimestamp = Inr None \<and>
         fetchUsers cp_fetchUsers m p = Inr None \<and>
         fetchChannels cp_fetchChannels m p = Inr None \<and>
         getChannel cp_getChannel m p channelId' = Inr None \<and>
         createIMChannel cp_createIMChannel m p user = Inr None \<and>
         updateSelfPresence cp_updateSelfPresence m p presence durationInMinutes = Inr None \<and>
         getUserPresence cp_getUserPresence m p userId = Inr None \<and>
         getCurrentUserPresence cp_getCurrentUserPresence m p = Inr None \<and>
         addReaction cp_addReaction m p channelId msgTimestamp userId reactionName = Inr None \<and>
         removeReaction cp_removeReaction m p channelId msgTimestamp userId reactionName = Inr None \<and>
         loadChannelHistory cp_loadChannelHistory m p channelId = Inr None \<and>
         fetchThreadReplies cp_fetchThreadReplies m p parentTimestamp' = Inr None \<and>
         updateChannelMarked cp_updateChannelMarked m p channelId readTimestamp unreadCount = Inr None \<and>
         updateReadMarker cp_updateReadMarker m p = Inr None \<and>
         updateMessageReply cp_updateMessageReply m p parentTimestamp' channelId reply = Inr None \<and>
         updateMessages cp_updateMessages m p channelId messages = Inr None \<and>
         updatePresenceForUser cp_updatePresenceForUser m p userId presence' = Inr None"
  using assms
  by (simp add: sendMessage_def fetchUsers_def fetchChannels_def getChannel_def
      createIMChannel_def updateSelfPresence_def getUserPresence_def
      getCurrentUserPresence_def addReaction_def removeReaction_def loadChannelHistory_def
      fetchThreadReplies_def updateChannelMarked_def updateReadMarker_def
      updateMessageReply_def updateMessages_def updatePresenceForUser_def)

theorem dispatch_absent_undefined_witness:
  "getChatProvider example_running ''ghost'' = None \<and>
   sendMessage (\<lambda>cp text channelId parentTimestamp. Inl (Error ''offline''))
     example_running ''ghost'' ''hello'' ''C1'' None = (Inr None :: error + unit option) \<and>
   getUserPresence (\<lambda>cp userId. Inr (Some ''active''))
     example_running ''ghost'' ''U1'' = Inr None"
proof -
  have h: "getChatProvider example_running ''ghost'' = None"
    by (simp add: getChatProvider_def map_get_def example_running_def example_sessions_def)
  have a: "sendMessage (\<lambda>cp text channelId parentTimestamp. Inl (Error ''offline''))
     example_running ''ghost'' ''hello'' ''C1'' None = (Inr None :: error + unit option)"
    by (rule dispatch_absent_undefined [OF h, THEN conjunct1])
  have b: "getUserPresence (\<lambda>cp userId. Inr (Some ''active''))
     example_running ''ghost'' ''U1'' = Inr None"
    by (rule dispatch_absent_undefined [OF h, THEN conjunct2, THEN conjunct2, THEN conjunct2,
          THEN conjunct2, THEN conjunct2, THEN conjunct2, THEN conjunct1])
  from h a b show ?thesis by blast
qed

text \<open>
  The three lookups with a default of their own return that default, and
  \<open>isProviderEnabled\<close> is false.
\<close>

lemma dispatch_absent_defaults:
  assumes "getChatProvider m p = None"
  shows "getMessages cp_messages m p = [] \<and>
         getUnreadCount cp_getUnreadCount m p channel = Inr 0 \<and>
         isAuthenticated cp_isAuthenticated m (Some p) = Inr False \<and>
         \<not> isProviderEnabled m p"
  using assms
  by (simp add: getMessages_def getUnreadCount_def isAuthenticated_def isProviderEnabled_def)

end
